theory Spec2Isabelle
  imports Main "HOL-Library.Multiset" "HOL-Library.List_Lexorder" "HOL-Library.Char_ord"
begin

section \<open>The algorithm state of the web application\<close>

text \<open>
  The reducer \<^verbatim>\<open>algorithmReducer\<close> of \<^verbatim>\<open>algorithm.reducer.ts\<close> is embedded as a
  function from a state and an action to either an exception or the next state. The
  type declarations of \<^verbatim>\<open>algorithm.state\<close> and the helpers \<^verbatim>\<open>sortResults\<close> and
  \<^verbatim>\<open>runFilters\<close> are imported by the reducer and are not part of the sources at hand:
  the types are rebuilt from the fields the reducer reads and writes, the helpers are
  parameters of the embedding.
\<close>

subsection \<open>Enumerations\<close>

text \<open>
  Modelled from the spec: the enum \<^verbatim>\<open>AlgorithmGlobalStatus\<close> (the reducer names its
  members \<^verbatim>\<open>idle\<close>, \<^verbatim>\<open>done\<close> and \<^verbatim>\<open>failed\<close>; the Run Controller of the
  specification has the states idle, running, done and failed).
\<close>

datatype AlgorithmGlobalStatus =
  GlobalStatus_idle | GlobalStatus_running | GlobalStatus_done | GlobalStatus_failed

text \<open>
  Modelled from the spec: the enum \<^verbatim>\<open>AlgorithmSequenceStatus\<close> (the reducer names its
  members \<^verbatim>\<open>queued\<close>, \<^verbatim>\<open>done\<close> and \<^verbatim>\<open>failed\<close>; the specification lists queued,
  running, done and failed).
\<close>

datatype AlgorithmSequenceStatus =
  SequenceStatus_queued | SequenceStatus_running | SequenceStatus_done | SequenceStatus_failed

subsection \<open>Payloads the reducer only stores\<close>

text \<open>
  The reducer never looks inside an analysis result, a list of peptides, an input
  descriptor, a dataset, the URL parameters or a gene: it copies them. Each is
  represented by a string (its serialised form).
\<close>

type_synonym AnalysisResult = string
type_synonym Peptides = string
type_synonym AlgorithmInput = string
type_synonym DatasetFlat = string
type_synonym UrlParams = string
type_synonym Gene = string

record Warnings =
  global :: "string list"
  inGenes :: "string list"

text \<open>
  Modelled from the spec: the sort configuration (a column and a direction). The
  reducer stores it and hands it to \<^verbatim>\<open>sortResults\<close>.
\<close>

datatype SortCategory = SortCategory_id | SortCategory_seqName
datatype SortDirection = SortDirection_asc | SortDirection_desc

record Sorting =
  category :: SortCategory
  direction :: SortDirection

subsection \<open>Sequence records\<close>

text \<open>
  One entry of \<^verbatim>\<open>draft.results\<close>, with the fields written by the
  \<^verbatim>\<open>addParsedSequence\<close> handler. The field \<^verbatim>\<open>id\<close> is called \<open>seqId\<close> here
  (\<open>id\<close> is the identity function of HOL); the indices come from the unsigned counter
  of the sequence parser and are natural numbers.
\<close>

record SequenceAnalysisState =
  status :: AlgorithmSequenceStatus
  seqId :: nat
  seqName :: string
  result :: "AnalysisResult option"
  query :: "string option"
  queryPeptides :: "Peptides option"
  warnings :: Warnings
  errors :: "string list"

text \<open>
  The payload of \<^verbatim>\<open>addNextcladeResult\<close>: the fields the handler reads from
  \<^verbatim>\<open>nextcladeResult\<close>. A field that JavaScript may find undefined is an option.
\<close>

record NextcladeResultPayload =
  nr_index :: nat
  nr_analysisResult :: "AnalysisResult option"
  nr_query :: "string option"
  nr_queryPeptides :: "Peptides option"
  nr_warnings :: Warnings
  nr_hasError :: bool
  nr_error :: string

subsection \<open>Input parameters\<close>

record AlgorithmParamsRaw =
  raw_seqData :: "AlgorithmInput option"
  raw_auspiceData :: "AlgorithmInput option"
  raw_rootSeq :: "AlgorithmInput option"
  raw_qcRulesConfig :: "AlgorithmInput option"
  raw_geneMap :: "AlgorithmInput option"
  raw_pcrPrimers :: "AlgorithmInput option"

record AlgorithmParamsStrings =
  strings_queryName :: "string option"
  strings_queryStr :: "string option"
  strings_treeStr :: "string option"
  strings_refStr :: "string option"
  strings_refName :: "string option"
  strings_qcConfigStr :: "string option"
  strings_geneMapStr :: "string option"
  strings_pcrPrimerCsvRowsStr :: "string option"

record AlgorithmParamsErrors =
  errors_seqData :: "string list"
  errors_auspiceData :: "string list"
  errors_rootSeq :: "string list"
  errors_qcRulesConfig :: "string list"
  errors_geneMap :: "string list"
  errors_pcrPrimers :: "string list"

record AlgorithmParamsFinal =
  final_genomeSize :: "nat option"
  final_geneMap :: "Gene list option"

text \<open>
  \<^verbatim>\<open>draft.params\<close>; its field \<^verbatim>\<open>errors\<close> is called \<open>inputErrors\<close> here, apart
  from the \<open>errors\<close> of a sequence record.
\<close>

record AlgorithmParams =
  raw :: AlgorithmParamsRaw
  strings :: AlgorithmParamsStrings
  inputErrors :: AlgorithmParamsErrors
  final :: AlgorithmParamsFinal
  seqData :: "string option"
  defaultDatasetName :: "string option"
  defaultDatasetNameFriendly :: "string option"
  datasets :: "DatasetFlat list"
  datasetCurrent :: "DatasetFlat option"
  urlParams :: "UrlParams option"

subsection \<open>Filters and the state\<close>

record Filters =
  seqNamesFilter :: "string option"
  mutationsFilter :: "string option"
  aaFilter :: "string option"
  cladesFilter :: "string option"
  showGood :: bool
  showMediocre :: bool
  showBad :: bool
  showErrors :: bool
  sorting :: "Sorting option"

text \<open>
  \<^verbatim>\<open>AlgorithmState\<close>. The arrays \<^verbatim>\<open>results\<close> and \<^verbatim>\<open>resultsFiltered\<close> are
  JavaScript arrays: an entry is a record or is undefined (a hole left by an assignment
  beyond the end), so an entry is an option. The fields \<^verbatim>\<open>status\<close> and \<^verbatim>\<open>errors\<close>
  of the state are called \<open>globalStatus\<close> and \<open>globalErrors\<close>, apart from those of a
  sequence record.
\<close>

record AlgorithmState =
  globalStatus :: AlgorithmGlobalStatus
  params :: AlgorithmParams
  isDirty :: bool
  results :: "SequenceAnalysisState option list"
  resultsFiltered :: "SequenceAnalysisState option list"
  treeStr :: "string option"
  globalErrors :: "string list"
  filters :: Filters

subsection \<open>Imported helpers and exceptions\<close>

text \<open>
  The functions the reducer imports from modules that are not among the sources:
  \<^verbatim>\<open>sortResults\<close>, \<^verbatim>\<open>runFilters\<close> (called on the whole current state) and the
  \<^verbatim>\<open>JSON.parse\<close> of the gene map, which yields no value where JavaScript throws a
  \<^verbatim>\<open>SyntaxError\<close>.
\<close>

record Deps =
  sortResults :: "SequenceAnalysisState option list \<Rightarrow> Sorting \<Rightarrow> SequenceAnalysisState option list"
  runFilters :: "AlgorithmState \<Rightarrow> SequenceAnalysisState option list"
  JSON_parse :: "string \<Rightarrow> Gene list option"

datatype exn =
  TypeError
  | SyntaxError
  | ErrorModuleNotInitialized string
  | ErrorBothResultsAndErrorAreNull
  | EngineError string

subsection \<open>JavaScript arrays\<close>

text \<open>Reading \<^verbatim>\<open>xs[i]\<close>: undefined at a hole and beyond the end.\<close>

definition arrayGet :: "'a option list \<Rightarrow> nat \<Rightarrow> 'a option" where
  "arrayGet xs i = (if i < length xs then xs ! i else None)"

text \<open>Writing \<^verbatim>\<open>xs[i] = v\<close>: beyond the end the array grows, with holes in between.\<close>

definition arraySet :: "'a option list \<Rightarrow> nat \<Rightarrow> 'a \<Rightarrow> 'a option list" where
  "arraySet xs i v =
     (if i < length xs then xs[i := Some v]
      else xs @ replicate (i - length xs) None @ [Some v])"

section \<open>The reducer\<close>

definition removeFastaImpl :: "AlgorithmState \<Rightarrow> AlgorithmState" where
  "removeFastaImpl draft =
     draft\<lparr>params := (params draft)
       \<lparr>raw := (raw (params draft))\<lparr>raw_seqData := None\<rparr>,
        strings := (strings (params draft))\<lparr>strings_queryName := None, strings_queryStr := None\<rparr>,
        inputErrors := (inputErrors (params draft))\<lparr>errors_seqData := []\<rparr>,
        seqData := None\<rparr>\<rparr>"

definition removeTreeImpl :: "AlgorithmState \<Rightarrow> AlgorithmState" where
  "removeTreeImpl draft =
     draft\<lparr>params := (params draft)
       \<lparr>raw := (raw (params draft))\<lparr>raw_auspiceData := None\<rparr>,
        strings := (strings (params draft))\<lparr>strings_treeStr := None\<rparr>,
        inputErrors := (inputErrors (params draft))\<lparr>errors_auspiceData := []\<rparr>\<rparr>\<rparr>"

definition removeRootSeqImpl :: "AlgorithmState \<Rightarrow> AlgorithmState" where
  "removeRootSeqImpl draft =
     draft\<lparr>params := (params draft)
       \<lparr>raw := (raw (params draft))\<lparr>raw_rootSeq := None\<rparr>,
        strings := (strings (params draft))\<lparr>strings_refStr := None\<rparr>,
        final := (final (params draft))\<lparr>final_genomeSize := None\<rparr>,
        inputErrors := (inputErrors (params draft))\<lparr>errors_rootSeq := []\<rparr>\<rparr>\<rparr>"

definition removeQcSettingsImpl :: "AlgorithmState \<Rightarrow> AlgorithmState" where
  "removeQcSettingsImpl draft =
     draft\<lparr>params := (params draft)
       \<lparr>raw := (raw (params draft))\<lparr>raw_qcRulesConfig := None\<rparr>,
        strings := (strings (params draft))\<lparr>strings_qcConfigStr := None\<rparr>,
        inputErrors := (inputErrors (params draft))\<lparr>errors_qcRulesConfig := []\<rparr>\<rparr>\<rparr>"

definition removeGeneMapImpl :: "AlgorithmState \<Rightarrow> AlgorithmState" where
  "removeGeneMapImpl draft =
     draft\<lparr>params := (params draft)
       \<lparr>raw := (raw (params draft))\<lparr>raw_geneMap := None\<rparr>,
        strings := (strings (params draft))\<lparr>strings_geneMapStr := None\<rparr>,
        final := (final (params draft))\<lparr>final_geneMap := None\<rparr>,
        inputErrors := (inputErrors (params draft))\<lparr>errors_geneMap := []\<rparr>\<rparr>\<rparr>"

definition removePcrPrimersImpl :: "AlgorithmState \<Rightarrow> AlgorithmState" where
  "removePcrPrimersImpl draft =
     draft\<lparr>params := (params draft)
       \<lparr>raw := (raw (params draft))\<lparr>raw_pcrPrimers := None\<rparr>,
        strings := (strings (params draft))\<lparr>strings_pcrPrimerCsvRowsStr := None\<rparr>,
        inputErrors := (inputErrors (params draft))\<lparr>errors_pcrPrimers := []\<rparr>\<rparr>\<rparr>"

definition removeAll :: "AlgorithmState \<Rightarrow> AlgorithmState" where
  "removeAll draft =
     removePcrPrimersImpl (removeGeneMapImpl (removeQcSettingsImpl
       (removeRootSeqImpl (removeTreeImpl (removeFastaImpl draft)))))"

subsection \<open>Actions\<close>

text \<open>
  One constructor per \<^verbatim>\<open>.icase\<close> of the reducer, with the payload the handler
  destructures; \<open>otherAction\<close> is any action the reducer has no case for.
\<close>

datatype Action =
  setDatasets "string option" "string option" "DatasetFlat list"
  | setCurrentDataset "DatasetFlat option"
  | setInputUrlParams "UrlParams option"
  | setGenomeSize nat
  | setGeneMapObject "Gene list"
  | addParsedSequence nat string
  | addNextcladeResult NextcladeResultPayload
  | resultsSortTrigger Sorting
  | setSeqNamesFilter "string option"
  | setMutationsFilter "string option"
  | setAAFilter "string option"
  | setCladesFilter "string option"
  | setShowGood bool
  | setShowMediocre bool
  | setShowBad bool
  | setShowErrors bool
  | setFasta_started AlgorithmInput
  | setTree_started AlgorithmInput
  | setRootSeq_started AlgorithmInput
  | setQcSettings_started AlgorithmInput
  | setGeneMap_started AlgorithmInput
  | setPcrPrimers_started AlgorithmInput
  | setFasta_done string string
  | setTree_done string
  | setRootSeq_done string string
  | setQcSettings_done string
  | setGeneMap_done string
  | setPcrPrimers_done string
  | setFasta_failed string
  | setTree_failed string
  | setRootSeq_failed string
  | setQcSettings_failed string
  | setGeneMap_failed string
  | setPcrPrimers_failed string
  | removeFasta
  | removeTree
  | removeRootSeq
  | removeQcSettings
  | removeGeneMap
  | removePcrPrimers
  | setIsDirty bool
  | algorithmRunAsync_started
  | setAlgorithmGlobalStatus AlgorithmGlobalStatus
  | algorithmRunAsync_trigger
  | algorithmRunAsync_done
  | algorithmRunAsync_failed string
  | setTreeResult string
  | errorDismiss
  | otherAction

subsection \<open>Handlers of the record collection\<close>

text \<open>\<^verbatim>\<open>draft.resultsFiltered = runFilters(current(draft))\<close>\<close>

definition refilter :: "Deps \<Rightarrow> AlgorithmState \<Rightarrow> AlgorithmState" where
  "refilter d draft = draft\<lparr>resultsFiltered := runFilters d draft\<rparr>"

text \<open>The record \<^verbatim>\<open>addParsedSequence\<close> stores at \<^verbatim>\<open>draft.results[index]\<close>.\<close>

definition queuedRecord :: "nat \<Rightarrow> string \<Rightarrow> SequenceAnalysisState" where
  "queuedRecord index name =
     \<lparr>status = SequenceStatus_queued, seqId = index, seqName = name, result = None,
      query = None, queryPeptides = None, warnings = \<lparr>global = [], inGenes = []\<rparr>,
      errors = []\<rparr>"

definition addParsedSequenceHandler :: "Deps \<Rightarrow> AlgorithmState \<Rightarrow> nat \<Rightarrow> string \<Rightarrow> AlgorithmState" where
  "addParsedSequenceHandler d draft index name =
     refilter d (draft\<lparr>results := arraySet (results draft) index (queuedRecord index name)\<rparr>)"

text \<open>
  The writes of \<^verbatim>\<open>addNextcladeResult\<close> to the entry \<^verbatim>\<open>draft.results[index]\<close>, once
  the entry is known to be a record: the four payload fields are copied whatever
  \<^verbatim>\<open>hasError\<close> says, then status and errors are set.
\<close>

definition completeRecord :: "NextcladeResultPayload \<Rightarrow> SequenceAnalysisState \<Rightarrow> SequenceAnalysisState" where
  "completeRecord nextcladeResult r =
     (let r1 = r\<lparr>result := nr_analysisResult nextcladeResult,
                  query := nr_query nextcladeResult,
                  queryPeptides := nr_queryPeptides nextcladeResult,
                  warnings := nr_warnings nextcladeResult\<rparr>
      in if nr_hasError nextcladeResult
         then r1\<lparr>status := SequenceStatus_failed, errors := [nr_error nextcladeResult]\<rparr>
         else r1\<lparr>status := SequenceStatus_done, errors := []\<rparr>)"

text \<open>
  The handler of \<^verbatim>\<open>addNextcladeResult\<close>. Its first statement assigns to a property of
  \<^verbatim>\<open>draft.results[index]\<close>; where that entry is undefined JavaScript throws a
  \<^verbatim>\<open>TypeError\<close>, and the draft is dropped.
\<close>

definition addNextcladeResultHandler ::
    "Deps \<Rightarrow> AlgorithmState \<Rightarrow> NextcladeResultPayload \<Rightarrow> exn + AlgorithmState" where
  "addNextcladeResultHandler d draft nextcladeResult =
     (case arrayGet (results draft) (nr_index nextcladeResult) of
        None \<Rightarrow> Inl TypeError
      | Some r \<Rightarrow>
          Inr (refilter d (draft\<lparr>results :=
                 (results draft)[nr_index nextcladeResult := Some (completeRecord nextcladeResult r)]\<rparr>)))"

definition resultsSortTriggerHandler :: "Deps \<Rightarrow> AlgorithmState \<Rightarrow> Sorting \<Rightarrow> AlgorithmState" where
  "resultsSortTriggerHandler d draft sorting' =
     (let draft1 = draft\<lparr>filters := (filters draft)\<lparr>sorting := Some sorting'\<rparr>\<rparr>;
          draft2 = draft1\<lparr>results := sortResults d (results draft1) sorting'\<rparr>
      in refilter d draft2)"

subsection \<open>Updates of the input parameters\<close>

definition setRaw :: "(AlgorithmParamsRaw \<Rightarrow> AlgorithmParamsRaw) \<Rightarrow> AlgorithmState \<Rightarrow> AlgorithmState" where
  "setRaw f draft = draft\<lparr>params := (params draft)\<lparr>raw := f (raw (params draft))\<rparr>\<rparr>"

definition setStrings :: "(AlgorithmParamsStrings \<Rightarrow> AlgorithmParamsStrings) \<Rightarrow> AlgorithmState \<Rightarrow> AlgorithmState" where
  "setStrings f draft = draft\<lparr>params := (params draft)\<lparr>strings := f (strings (params draft))\<rparr>\<rparr>"

definition setInputErrors :: "(AlgorithmParamsErrors \<Rightarrow> AlgorithmParamsErrors) \<Rightarrow> AlgorithmState \<Rightarrow> AlgorithmState" where
  "setInputErrors f draft =
     draft\<lparr>params := (params draft)\<lparr>inputErrors := f (inputErrors (params draft))\<rparr>\<rparr>"

definition setFinal :: "(AlgorithmParamsFinal \<Rightarrow> AlgorithmParamsFinal) \<Rightarrow> AlgorithmState \<Rightarrow> AlgorithmState" where
  "setFinal f draft = draft\<lparr>params := (params draft)\<lparr>final := f (final (params draft))\<rparr>\<rparr>"

subsection \<open>The reducer\<close>

fun algorithmReducer :: "Deps \<Rightarrow> AlgorithmState \<Rightarrow> Action \<Rightarrow> exn + AlgorithmState" where
  "algorithmReducer d draft (setDatasets name friendly ds) =
     Inr (draft\<lparr>params := (params draft)
       \<lparr>defaultDatasetName := name, defaultDatasetNameFriendly := friendly, datasets := ds\<rparr>\<rparr>)"
| "algorithmReducer d draft (setCurrentDataset dataset) =
     Inr (let draft1 = removeAll draft
          in draft1\<lparr>params := (params draft1)\<lparr>datasetCurrent := dataset\<rparr>\<rparr>)"
| "algorithmReducer d draft (setInputUrlParams u) =
     Inr (draft\<lparr>params := (params draft)\<lparr>urlParams := u\<rparr>\<rparr>)"
| "algorithmReducer d draft (setGenomeSize genomeSize) =
     Inr (setFinal (\<lambda>f. f\<lparr>final_genomeSize := Some genomeSize\<rparr>) draft)"
| "algorithmReducer d draft (setGeneMapObject geneMap) =
     Inr (setFinal (\<lambda>f. f\<lparr>final_geneMap := Some geneMap\<rparr>) draft)"
| "algorithmReducer d draft (addParsedSequence index name) =
     Inr (addParsedSequenceHandler d draft index name)"
| "algorithmReducer d draft (addNextcladeResult nextcladeResult) =
     addNextcladeResultHandler d draft nextcladeResult"
| "algorithmReducer d draft (resultsSortTrigger sorting') =
     Inr (resultsSortTriggerHandler d draft sorting')"
| "algorithmReducer d draft (setSeqNamesFilter v) =
     Inr (refilter d (draft\<lparr>filters := (filters draft)\<lparr>seqNamesFilter := v\<rparr>\<rparr>))"
| "algorithmReducer d draft (setMutationsFilter v) =
     Inr (refilter d (draft\<lparr>filters := (filters draft)\<lparr>mutationsFilter := v\<rparr>\<rparr>))"
| "algorithmReducer d draft (setAAFilter v) =
     Inr (refilter d (draft\<lparr>filters := (filters draft)\<lparr>aaFilter := v\<rparr>\<rparr>))"
| "algorithmReducer d draft (setCladesFilter v) =
     Inr (refilter d (draft\<lparr>filters := (filters draft)\<lparr>cladesFilter := v\<rparr>\<rparr>))"
| "algorithmReducer d draft (setShowGood b) =
     Inr (refilter d (draft\<lparr>filters := (filters draft)\<lparr>showGood := b\<rparr>\<rparr>))"
| "algorithmReducer d draft (setShowMediocre b) =
     Inr (refilter d (draft\<lparr>filters := (filters draft)\<lparr>showMediocre := b\<rparr>\<rparr>))"
| "algorithmReducer d draft (setShowBad b) =
     Inr (refilter d (draft\<lparr>filters := (filters draft)\<lparr>showBad := b\<rparr>\<rparr>))"
| "algorithmReducer d draft (setShowErrors b) =
     Inr (refilter d (draft\<lparr>filters := (filters draft)\<lparr>showErrors := b\<rparr>\<rparr>))"
| "algorithmReducer d draft (setFasta_started input) =
     Inr (setInputErrors (\<lambda>e. e\<lparr>errors_seqData := []\<rparr>)
           (setRaw (\<lambda>r. r\<lparr>raw_seqData := Some input\<rparr>) (removeFastaImpl draft)))"
| "algorithmReducer d draft (setTree_started input) =
     Inr (setInputErrors (\<lambda>e. e\<lparr>errors_auspiceData := []\<rparr>)
           (setRaw (\<lambda>r. r\<lparr>raw_auspiceData := Some input\<rparr>) (removeTreeImpl draft)))"
| "algorithmReducer d draft (setRootSeq_started input) =
     Inr (setInputErrors (\<lambda>e. e\<lparr>errors_rootSeq := []\<rparr>)
           (setRaw (\<lambda>r. r\<lparr>raw_rootSeq := Some input\<rparr>) (removeRootSeqImpl draft)))"
| "algorithmReducer d draft (setQcSettings_started input) =
     Inr (setInputErrors (\<lambda>e. e\<lparr>errors_qcRulesConfig := []\<rparr>)
           (setRaw (\<lambda>r. r\<lparr>raw_qcRulesConfig := Some input\<rparr>) (removeQcSettingsImpl draft)))"
| "algorithmReducer d draft (setGeneMap_started input) =
     Inr (setInputErrors (\<lambda>e. e\<lparr>errors_geneMap := []\<rparr>)
           (setRaw (\<lambda>r. r\<lparr>raw_geneMap := Some input\<rparr>) (removeGeneMapImpl draft)))"
| "algorithmReducer d draft (setPcrPrimers_started input) =
     Inr (setInputErrors (\<lambda>e. e\<lparr>errors_pcrPrimers := []\<rparr>)
           (setRaw (\<lambda>r. r\<lparr>raw_pcrPrimers := Some input\<rparr>) (removePcrPrimersImpl draft)))"
| "algorithmReducer d draft (setFasta_done queryStr queryName) =
     Inr (setInputErrors (\<lambda>e. e\<lparr>errors_seqData := []\<rparr>)
           (setStrings (\<lambda>s. s\<lparr>strings_queryStr := Some queryStr, strings_queryName := Some queryName\<rparr>)
              draft))"
| "algorithmReducer d draft (setTree_done treeStr') =
     Inr (setInputErrors (\<lambda>e. e\<lparr>errors_auspiceData := []\<rparr>)
           (setStrings (\<lambda>s. s\<lparr>strings_treeStr := Some treeStr'\<rparr>) draft))"
| "algorithmReducer d draft (setRootSeq_done refStr refName) =
     Inr (setInputErrors (\<lambda>e. e\<lparr>errors_rootSeq := []\<rparr>)
           (setFinal (\<lambda>f. f\<lparr>final_genomeSize := Some (length refStr)\<rparr>)
              (setStrings (\<lambda>s. s\<lparr>strings_refStr := Some refStr, strings_refName := Some refName\<rparr>)
                 draft)))"
| "algorithmReducer d draft (setQcSettings_done qcConfigStr) =
     Inr (setInputErrors (\<lambda>e. e\<lparr>errors_qcRulesConfig := []\<rparr>)
           (setStrings (\<lambda>s. s\<lparr>strings_qcConfigStr := Some qcConfigStr\<rparr>) draft))"
| "algorithmReducer d draft (setGeneMap_done geneMapStr) =
     (case JSON_parse d geneMapStr of
        None \<Rightarrow> Inl SyntaxError
      | Some geneMap \<Rightarrow>
          Inr (setInputErrors (\<lambda>e. e\<lparr>errors_geneMap := []\<rparr>)
                (setFinal (\<lambda>f. f\<lparr>final_geneMap := Some geneMap\<rparr>)
                   (setStrings (\<lambda>s. s\<lparr>strings_geneMapStr := Some geneMapStr\<rparr>) draft))))"
| "algorithmReducer d draft (setPcrPrimers_done pcrPrimerCsvRowsStr) =
     Inr (setInputErrors (\<lambda>e. e\<lparr>errors_pcrPrimers := []\<rparr>)
           (setStrings (\<lambda>s. s\<lparr>strings_pcrPrimerCsvRowsStr := Some pcrPrimerCsvRowsStr\<rparr>) draft))"
| "algorithmReducer d draft (setFasta_failed error) =
     Inr (setInputErrors (\<lambda>e. e\<lparr>errors_seqData := [error]\<rparr>) (removeFastaImpl draft))"
| "algorithmReducer d draft (setTree_failed error) =
     Inr (setInputErrors (\<lambda>e. e\<lparr>errors_auspiceData := [error]\<rparr>) (removeTreeImpl draft))"
| "algorithmReducer d draft (setRootSeq_failed error) =
     Inr (setInputErrors (\<lambda>e. e\<lparr>errors_rootSeq := [error]\<rparr>) (removeRootSeqImpl draft))"
| "algorithmReducer d draft (setQcSettings_failed error) =
     Inr (setInputErrors (\<lambda>e. e\<lparr>errors_qcRulesConfig := [error]\<rparr>) (removeQcSettingsImpl draft))"
| "algorithmReducer d draft (setGeneMap_failed error) =
     Inr (setInputErrors (\<lambda>e. e\<lparr>errors_geneMap := [error]\<rparr>) (removeGeneMapImpl draft))"
| "algorithmReducer d draft (setPcrPrimers_failed error) =
     Inr (setInputErrors (\<lambda>e. e\<lparr>errors_pcrPrimers := [error]\<rparr>) (removePcrPrimersImpl draft))"
| "algorithmReducer d draft removeFasta = Inr (removeFastaImpl draft)"
| "algorithmReducer d draft removeTree = Inr (removeTreeImpl draft)"
| "algorithmReducer d draft removeRootSeq = Inr (removeRootSeqImpl draft)"
| "algorithmReducer d draft removeQcSettings = Inr (removeQcSettingsImpl draft)"
| "algorithmReducer d draft removeGeneMap = Inr (removeGeneMapImpl draft)"
| "algorithmReducer d draft removePcrPrimers = Inr (removePcrPrimersImpl draft)"
| "algorithmReducer d draft (setIsDirty b) =
     Inr (draft\<lparr>globalStatus := GlobalStatus_idle, isDirty := b\<rparr>)"
| "algorithmReducer d draft algorithmRunAsync_started =
     Inr (draft\<lparr>globalStatus := GlobalStatus_idle, isDirty := False, results := [],
                resultsFiltered := [], treeStr := None, globalErrors := []\<rparr>)"
| "algorithmReducer d draft (setAlgorithmGlobalStatus st) = Inr (draft\<lparr>globalStatus := st\<rparr>)"
| "algorithmReducer d draft algorithmRunAsync_trigger =
     Inr (draft\<lparr>globalStatus := GlobalStatus_idle, globalErrors := []\<rparr>)"
| "algorithmReducer d draft algorithmRunAsync_done =
     Inr (draft\<lparr>globalStatus := GlobalStatus_done, globalErrors := []\<rparr>)"
| "algorithmReducer d draft (algorithmRunAsync_failed message) =
     Inr (draft\<lparr>globalStatus := GlobalStatus_failed, globalErrors := [message]\<rparr>)"
| "algorithmReducer d draft (setTreeResult treeStr') = Inr (draft\<lparr>treeStr := Some treeStr'\<rparr>)"
| "algorithmReducer d draft errorDismiss = Inr (draft\<lparr>globalErrors := []\<rparr>)"
| "algorithmReducer d draft otherAction = Inr draft"

text \<open>
  The store keeps its state when the reducer throws: \<open>dispatch\<close> is one action on
  the store, \<open>dispatchAll\<close> a sequence of them, first to last.
\<close>

definition dispatch :: "Deps \<Rightarrow> AlgorithmState \<Rightarrow> Action \<Rightarrow> AlgorithmState" where
  "dispatch d s a = (case algorithmReducer d s a of Inl e \<Rightarrow> s | Inr s' \<Rightarrow> s')"

definition dispatchAll :: "Deps \<Rightarrow> AlgorithmState \<Rightarrow> Action list \<Rightarrow> AlgorithmState" where
  "dispatchAll d s as = foldl (dispatch d) s as"

section \<open>Properties of records, collections and helpers\<close>

text \<open>
  The invariant the specification gives for a sequence record: a result is present
  exactly when the status is done, and the list of errors is non-empty exactly when
  the status is failed. \<open>errorsInvariant\<close> is its second half.
\<close>

definition sequenceRecordInvariant :: "SequenceAnalysisState \<Rightarrow> bool" where
  "sequenceRecordInvariant r =
     (((result r \<noteq> None) = (status r = SequenceStatus_done)) \<and>
      ((errors r \<noteq> []) = (status r = SequenceStatus_failed)))"

definition errorsInvariant :: "SequenceAnalysisState \<Rightarrow> bool" where
  "errorsInvariant r = ((errors r \<noteq> []) = (status r = SequenceStatus_failed))"

text \<open>A property of every record of an array (holes hold no record).\<close>

definition allRecords :: "('a \<Rightarrow> bool) \<Rightarrow> 'a option list \<Rightarrow> bool" where
  "allRecords P rs = list_all (\<lambda>e. case e of None \<Rightarrow> True | Some r \<Rightarrow> P r) rs"

text \<open>An array without holes: every index below its length holds a record.\<close>

definition allPresent :: "'a option list \<Rightarrow> bool" where
  "allPresent rs = list_all (\<lambda>e. e \<noteq> None) rs"

text \<open>
  What the specification says of the absent helpers: sorting permutes the collection
  and filtering selects from it, so neither returns an entry it was not given; and the
  derived view is a function of the record collection and the filter and sort
  configuration (the field \<^verbatim>\<open>filters\<close>) alone.
\<close>

definition depsReturnEntries :: "Deps \<Rightarrow> bool" where
  "depsReturnEntries d =
     ((\<forall>rs s. set (sortResults d rs s) \<subseteq> set rs) \<and>
      (\<forall>s. set (runFilters d s) \<subseteq> set (results s)))"

definition runFiltersPure :: "Deps \<Rightarrow> bool" where
  "runFiltersPure d =
     (\<forall>s s'. results s = results s' \<and> filters s = filters s' \<longrightarrow> runFilters d s = runFilters d s')"

text \<open>
  A completion payload that carries an analysis result exactly when it reports no
  error; every other action counts as well-formed.
\<close>

fun payloadOk :: "Action \<Rightarrow> bool" where
  "payloadOk (addNextcladeResult p) = (nr_hasError p = (nr_analysisResult p = None))"
| "payloadOk a = True"

text \<open>
  The actions that change the record collection, the filter configuration or the sort
  configuration and recompute the derived view.
\<close>

fun recomputesView :: "Action \<Rightarrow> bool" where
  "recomputesView (addParsedSequence i n) = True"
| "recomputesView (addNextcladeResult p) = True"
| "recomputesView (resultsSortTrigger s) = True"
| "recomputesView (setSeqNamesFilter v) = True"
| "recomputesView (setMutationsFilter v) = True"
| "recomputesView (setAAFilter v) = True"
| "recomputesView (setCladesFilter v) = True"
| "recomputesView (setShowGood b) = True"
| "recomputesView (setShowMediocre b) = True"
| "recomputesView (setShowBad b) = True"
| "recomputesView (setShowErrors b) = True"
| "recomputesView a = False"

section \<open>Concrete helpers and inputs\<close>

text \<open>
  Modelled from the spec: \<^verbatim>\<open>sortResults\<close> of \<^verbatim>\<open>src/helpers/sortResults\<close>, for the
  keys a record carries itself (insertion index and name). The sort is stable, in the
  direction asked for; holes stay behind the records, as JavaScript sorts them.
\<close>

definition sortResultsSpec ::
    "SequenceAnalysisState option list \<Rightarrow> Sorting \<Rightarrow> SequenceAnalysisState option list" where
  "sortResultsSpec rs s =
     (let present = List.map_filter (\<lambda>r. r) rs;
          holes = filter (\<lambda>r. r = None) rs;
          ordered =
            (case (category s, direction s) of
               (SortCategory_id, SortDirection_asc) \<Rightarrow> sort_key seqId present
             | (SortCategory_id, SortDirection_desc) \<Rightarrow> rev (sort_key seqId (rev present))
             | (SortCategory_seqName, SortDirection_asc) \<Rightarrow> sort_key seqName present
             | (SortCategory_seqName, SortDirection_desc) \<Rightarrow> rev (sort_key seqName (rev present)))
      in map Some ordered @ holes)"

text \<open>
  Modelled from the spec: \<^verbatim>\<open>runFilters\<close> of \<^verbatim>\<open>src/filtering/runFilters\<close>, for the
  one predicate that reads a field the reducer writes: a record in failed status is
  shown only while the errors toggle is on. Records keep the order of the collection.
\<close>

definition runFiltersSpec :: "AlgorithmState \<Rightarrow> SequenceAnalysisState option list" where
  "runFiltersSpec s =
     filter (\<lambda>e. case e of None \<Rightarrow> True
                    | Some r \<Rightarrow> showErrors (filters s) \<or> status r \<noteq> SequenceStatus_failed)
       (results s)"

definition exampleDeps :: Deps where
  "exampleDeps =
     \<lparr>sortResults = sortResultsSpec, runFilters = runFiltersSpec, JSON_parse = (\<lambda>s. Some [s])\<rparr>"

text \<open>A state with no records, no inputs, every toggle on and status idle.\<close>

definition exampleState :: AlgorithmState where
  "exampleState =
     \<lparr>globalStatus = GlobalStatus_idle,
      params = \<lparr>raw = \<lparr>raw_seqData = None, raw_auspiceData = None, raw_rootSeq = None,
                        raw_qcRulesConfig = None, raw_geneMap = None, raw_pcrPrimers = None\<rparr>,
                strings = \<lparr>strings_queryName = None, strings_queryStr = None, strings_treeStr = None,
                            strings_refStr = None, strings_refName = None, strings_qcConfigStr = None,
                            strings_geneMapStr = None, strings_pcrPrimerCsvRowsStr = None\<rparr>,
                inputErrors = \<lparr>errors_seqData = [], errors_auspiceData = [], errors_rootSeq = [],
                                errors_qcRulesConfig = [], errors_geneMap = [], errors_pcrPrimers = []\<rparr>,
                final = \<lparr>final_genomeSize = None, final_geneMap = None\<rparr>,
                seqData = None, defaultDatasetName = None, defaultDatasetNameFriendly = None,
                datasets = [], datasetCurrent = None, urlParams = None\<rparr>,
      isDirty = True, results = [], resultsFiltered = [], treeStr = None, globalErrors = [],
      filters = \<lparr>seqNamesFilter = None, mutationsFilter = None, aaFilter = None, cladesFilter = None,
                  showGood = True, showMediocre = True, showBad = True, showErrors = True,
                  sorting = None\<rparr>\<rparr>"

text \<open>A success payload and a failure payload for the record at a given index.\<close>

definition successPayload :: "nat \<Rightarrow> AnalysisResult \<Rightarrow> NextcladeResultPayload" where
  "successPayload i r =
     \<lparr>nr_index = i, nr_analysisResult = Some r, nr_query = Some ''ACGT'',
      nr_queryPeptides = Some ''MK'', nr_warnings = \<lparr>global = [], inGenes = []\<rparr>,
      nr_hasError = False, nr_error = []\<rparr>"

definition failurePayload :: "nat \<Rightarrow> string \<Rightarrow> NextcladeResultPayload" where
  "failurePayload i e =
     \<lparr>nr_index = i, nr_analysisResult = None, nr_query = None,
      nr_queryPeptides = None, nr_warnings = \<lparr>global = [], inGenes = []\<rparr>,
      nr_hasError = True, nr_error = e\<rparr>"

text \<open>
  The scenario of the specification: a run is started and three names are parsed;
  \<open>secondRunState\<close> is the store after a second run has started and parsed one name.
\<close>

definition queuedState :: AlgorithmState where
  "queuedState =
     dispatchAll exampleDeps exampleState
       [algorithmRunAsync_started, addParsedSequence 0 ''s1'', addParsedSequence 1 ''s2'',
        addParsedSequence 2 ''s3'']"

definition secondRunState :: AlgorithmState where
  "secondRunState =
     dispatchAll exampleDeps queuedState [algorithmRunAsync_started, addParsedSequence 0 ''t1'']"

text \<open>
  The store after the first run has failed as a whole: the inputs were marked dirty,
  then the run reported a top-level error; the three records are still there.
\<close>

definition failedRunState :: AlgorithmState where
  "failedRunState =
     dispatchAll exampleDeps queuedState
       [setIsDirty True, algorithmRunAsync_failed ''engine unavailable'']"

section \<open>The analysis worker\<close>

text \<open>
  \<^verbatim>\<open>analyze\<close> of \<^verbatim>\<open>nextcladeWasm.worker.ts\<close>. The WebAssembly module is a value
  that may be absent (the variable \<^verbatim>\<open>nextcladeWasm\<close>); its \<^verbatim>\<open>analyze\<close> either
  throws or returns an output whose \<^verbatim>\<open>to_js()\<close> has an optional result and an
  optional error. The two calls of \<^verbatim>\<open>JSON.parse\<close> are parameters that yield no value
  where JavaScript throws a \<^verbatim>\<open>SyntaxError\<close>.
\<close>

type_synonym Translation = string

record FastaRecord =
  fr_index :: nat
  fr_seqName :: string
  fr_seq :: string

record AnalysisInput =
  qry_seq_name :: string
  qry_seq_str :: string

record AnalysisOutputPojo =
  pojo_query :: string
  pojo_query_peptides :: string
  pojo_analysis_result :: string

record AnalysisOutput =
  output_result :: "AnalysisOutputPojo option"
  output_error :: "string option"

type_synonym NextcladeWasm = "AnalysisInput \<Rightarrow> exn + AnalysisOutput"

record WorkerDeps =
  parseQueryPeptides :: "string \<Rightarrow> Translation list option"
  parseAnalysisResult :: "string \<Rightarrow> AnalysisResult option"

record NextcladeResultOk =
  ok_query :: string
  ok_queryPeptides :: "Translation list"
  ok_analysisResult :: AnalysisResult

record NextcladeResult =
  out_index :: nat
  out_seqName :: string
  out_result :: "NextcladeResultOk option"
  out_error :: "string option"

text \<open>\<^verbatim>\<open>if (error)\<close> on an optional string: undefined and the empty string are falsy.\<close>

definition truthy :: "string option \<Rightarrow> bool" where
  "truthy e = (case e of None \<Rightarrow> False | Some m \<Rightarrow> m \<noteq> [])"

definition analyze :: "NextcladeWasm option \<Rightarrow> WorkerDeps \<Rightarrow> FastaRecord \<Rightarrow> exn + NextcladeResult" where
  "analyze nextcladeWasm w record' =
     (case nextcladeWasm of
        None \<Rightarrow> Inl (ErrorModuleNotInitialized ''analyze'')
      | Some wasm \<Rightarrow>
          (case wasm \<lparr>qry_seq_name = fr_seqName record', qry_seq_str = fr_seq record'\<rparr> of
             Inl e \<Rightarrow> Inl e
           | Inr output \<Rightarrow>
               (case output_result output of
                  Some res \<Rightarrow>
                    (case parseQueryPeptides w (pojo_query_peptides res) of
                       None \<Rightarrow> Inl SyntaxError
                     | Some queryPeptides' \<Rightarrow>
                         (case parseAnalysisResult w (pojo_analysis_result res) of
                            None \<Rightarrow> Inl SyntaxError
                          | Some analysisResult \<Rightarrow>
                              Inr \<lparr>out_index = fr_index record', out_seqName = fr_seqName record',
                                   out_result = Some \<lparr>ok_query = pojo_query res,
                                                      ok_queryPeptides = queryPeptides',
                                                      ok_analysisResult = analysisResult\<rparr>,
                                   out_error = None\<rparr>))
                | None \<Rightarrow>
                    if truthy (output_error output)
                    then Inr \<lparr>out_index = fr_index record', out_seqName = fr_seqName record',
                              out_result = None, out_error = output_error output\<rparr>
                    else Inl ErrorBothResultsAndErrorAreNull)))"

text \<open>An engine that fails on an empty sequence and returns a result otherwise.\<close>

definition exampleWasm :: NextcladeWasm where
  "exampleWasm input =
     (if qry_seq_str input = []
      then Inr \<lparr>output_result = None, output_error = Some ''empty sequence''\<rparr>
      else Inr \<lparr>output_result = Some \<lparr>pojo_query = qry_seq_str input, pojo_query_peptides = ''[]'',
                                      pojo_analysis_result = qry_seq_name input\<rparr>,
                output_error = None\<rparr>)"

text \<open>An engine that breaks its contract: neither a result nor an error.\<close>

definition silentWasm :: NextcladeWasm where
  "silentWasm input = Inr \<lparr>output_result = None, output_error = None\<rparr>"

definition exampleWorkerDeps :: WorkerDeps where
  "exampleWorkerDeps = \<lparr>parseQueryPeptides = (\<lambda>s. Some []), parseAnalysisResult = (\<lambda>s. Some s)\<rparr>"

section \<open>Basic facts about the handlers\<close>

lemma results_refilter: "results (refilter d s) = results s"
  by (simp add: refilter_def)

lemma results_addParsedSequenceHandler:
  "results (addParsedSequenceHandler d s i n) = arraySet (results s) i (queuedRecord i n)"
  by (simp add: addParsedSequenceHandler_def refilter_def)

lemma dispatch_addParsedSequence:
  "dispatch d s (addParsedSequence i n) = addParsedSequenceHandler d s i n"
  by (simp add: dispatch_def)

lemma arraySet_length: "arraySet xs (length xs) v = xs @ [Some v]"
  by (simp add: arraySet_def)

lemma addNextcladeResult_throws_iff:
  "(addNextcladeResultHandler d s p = Inl e) =
     (e = TypeError \<and> arrayGet (results s) (nr_index p) = None)"
  by (auto simp add: addNextcladeResultHandler_def split: option.splits)

lemma addNextcladeResult_returns_iff:
  "(addNextcladeResultHandler d s p = Inr s') =
     (\<exists>r. arrayGet (results s) (nr_index p) = Some r \<and>
        s' = refilter d (s\<lparr>results := (results s)[nr_index p := Some (completeRecord p r)]\<rparr>))"
  by (auto simp add: addNextcladeResultHandler_def split: option.splits)

lemma arrayGet_present:
  "allPresent rs \<Longrightarrow> i < length rs \<Longrightarrow> \<exists>r. arrayGet rs i = Some r"
  by (auto simp add: allPresent_def arrayGet_def list_all_length)

lemma results_queuedState:
  "results queuedState =
     [Some (queuedRecord 0 ''s1''), Some (queuedRecord 1 ''s2''), Some (queuedRecord 2 ''s3'')]"
  by (simp add: queuedState_def dispatchAll_def dispatch_def addParsedSequenceHandler_def
      refilter_def arraySet_def)

lemma results_secondRunState: "results secondRunState = [Some (queuedRecord 0 ''t1'')]"
  by (simp add: secondRunState_def dispatchAll_def dispatch_def addParsedSequenceHandler_def
      refilter_def arraySet_def)

section \<open>Initialising the collection\<close>

lemma results_initialize:
  "results (dispatchAll d s (map (\<lambda>(i, n). addParsedSequence i n) (enumerate (length (results s)) names)))
     = results s @ map (\<lambda>(i, n). Some (queuedRecord i n)) (enumerate (length (results s)) names)"
proof (induction names arbitrary: s)
  case Nil
  show ?case by (simp add: dispatchAll_def)
next
  case (Cons n names)
  let ?s1 = "addParsedSequenceHandler d s (length (results s)) n"
  have len: "length (results ?s1) = Suc (length (results s))"
    by (simp add: results_addParsedSequenceHandler arraySet_length)
  have "results (dispatchAll d ?s1 (map (\<lambda>(i, n). addParsedSequence i n) (enumerate (length (results ?s1)) names)))
     = results ?s1 @ map (\<lambda>(i, n). Some (queuedRecord i n)) (enumerate (length (results ?s1)) names)"
    by (rule Cons.IH)
  then show ?case
    by (simp add: dispatchAll_def dispatch_addParsedSequence len results_addParsedSequenceHandler arraySet_length)
qed

text \<open>
  Claim C4. Starting a run (\<^verbatim>\<open>algorithmRunAsync.started\<close>, which empties the store)
  and then dispatching \<^verbatim>\<open>addParsedSequence\<close> for the names in order, with the indices
  0, 1, 2, ..., leaves a collection with one record per name, in the order of the names:
  the record at position \<open>i\<close> has id \<open>i\<close>, the \<open>i\<close>-th name, status queued, no result,
  no query, no peptides, empty global and per-gene warnings and no errors. This holds
  from every prior state and for every sorting and filtering helper.
\<close>

theorem initialize_after_reset:
  "results (dispatchAll d s (algorithmRunAsync_started #
        map (\<lambda>(i, n). addParsedSequence i n) (enumerate 0 names)))
     = map (\<lambda>(i, n). Some \<lparr>status = SequenceStatus_queued, seqId = i, seqName = n, result = None,
                            query = None, queryPeptides = None,
                            warnings = \<lparr>global = [], inGenes = []\<rparr>, errors = []\<rparr>)
         (enumerate 0 names)"
proof -
  let ?s0 = "dispatch d s algorithmRunAsync_started"
  have empty: "results ?s0 = []"
    by (simp add: dispatch_def)
  have "results (dispatchAll d ?s0 (map (\<lambda>(i, n). addParsedSequence i n) (enumerate (length (results ?s0)) names)))
     = results ?s0 @ map (\<lambda>(i, n). Some (queuedRecord i n)) (enumerate (length (results ?s0)) names)"
    by (rule results_initialize)
  then show ?thesis
    by (simp add: empty dispatchAll_def queuedRecord_def)
qed

theorem initialize_after_reset_witness:
  "results (dispatchAll exampleDeps queuedState
      [algorithmRunAsync_started, addParsedSequence 0 ''t1'', addParsedSequence 1 ''t2''])
     = [Some \<lparr>status = SequenceStatus_queued, seqId = 0, seqName = ''t1'', result = None,
                            query = None, queryPeptides = None,
                            warnings = \<lparr>global = [], inGenes = []\<rparr>, errors = []\<rparr>,
        Some \<lparr>status = SequenceStatus_queued, seqId = 1, seqName = ''t2'', result = None,
                            query = None, queryPeptides = None,
                            warnings = \<lparr>global = [], inGenes = []\<rparr>, errors = []\<rparr>]"
  using initialize_after_reset [of exampleDeps queuedState "[''t1'', ''t2'']"]
  by (simp add: enumerate_eq_zip upt_rec)

section \<open>Starting a run\<close>

text \<open>
  Claim C5, as the code has it. From every prior state, so in particular from one whose
  status is idle, done or failed, the handler of \<^verbatim>\<open>algorithmRunAsync.started\<close> returns
  a state; in it the status is idle (not running), the dirty flag is cleared, and the
  record collection, the derived view and the global error list are empty.
\<close>

theorem run_start_resets_to_idle:
  "algorithmReducer d s algorithmRunAsync_started = Inr (dispatch d s algorithmRunAsync_started) \<and>
   globalStatus (dispatch d s algorithmRunAsync_started) = GlobalStatus_idle \<and>
   isDirty (dispatch d s algorithmRunAsync_started) = False \<and>
   results (dispatch d s algorithmRunAsync_started) = [] \<and>
   resultsFiltered (dispatch d s algorithmRunAsync_started) = [] \<and>
   globalErrors (dispatch d s algorithmRunAsync_started) = []"
  by (simp add: dispatch_def)

theorem run_start_resets_to_idle_witness:
  "globalStatus failedRunState = GlobalStatus_failed \<and>
   isDirty failedRunState = True \<and>
   length (results failedRunState) = 3 \<and>
   length (resultsFiltered failedRunState) = 3 \<and>
   globalErrors failedRunState = [''engine unavailable''] \<and>
   globalStatus (dispatch exampleDeps failedRunState algorithmRunAsync_started) = GlobalStatus_idle \<and>
   isDirty (dispatch exampleDeps failedRunState algorithmRunAsync_started) = False \<and>
   results (dispatch exampleDeps failedRunState algorithmRunAsync_started) = [] \<and>
   resultsFiltered (dispatch exampleDeps failedRunState algorithmRunAsync_started) = [] \<and>
   globalErrors (dispatch exampleDeps failedRunState algorithmRunAsync_started) = []"
proof -
  have prior: "globalStatus failedRunState = GlobalStatus_failed \<and>
      isDirty failedRunState = True \<and>
      length (results failedRunState) = 3 \<and>
      length (resultsFiltered failedRunState) = 3 \<and>
      globalErrors failedRunState = [''engine unavailable'']"
    by (simp add: failedRunState_def queuedState_def dispatchAll_def dispatch_def
        addParsedSequenceHandler_def refilter_def arraySet_def exampleDeps_def runFiltersSpec_def
        exampleState_def queuedRecord_def)
  from run_start_resets_to_idle [of exampleDeps failedRunState] prior
  show ?thesis by simp
qed

text \<open>
  Claim C5 as stated fails: started from a state whose status is done, the run-start
  transition leaves the status idle, not running.
\<close>

theorem run_start_not_running:
  "globalStatus (dispatch exampleDeps (exampleState\<lparr>globalStatus := GlobalStatus_done\<rparr>)
      algorithmRunAsync_started) \<noteq> GlobalStatus_running"
  by (simp add: dispatch_def)

section \<open>Completions\<close>

text \<open>
  Claim C7, as the code has it. A completion carries no run identifier and the handler
  has no guard against a superseded run: the completion is applied by its index alone,
  whichever run issued it. When the current collection has no record at that index,
  the handler throws a \<^verbatim>\<open>TypeError\<close> and the store keeps its state; this is so for
  every completion that arrives right after a run start has emptied the collection.
  When a record sits at that index, whichever run created it, the handler returns a
  state in which the record at that index is the old record with the result, query,
  peptides and warnings of the payload, with status failed and the payload's error if
  the payload reports an error, and with status done and no errors otherwise; the store
  is thereby changed whenever that record differs from the old one.
\<close>

theorem completion_applied_by_index_alone:
  "(arrayGet (results s) (nr_index p) = None \<longrightarrow>
      algorithmReducer d s (addNextcladeResult p) = Inl TypeError \<and>
      dispatch d s (addNextcladeResult p) = s) \<and>
   (arrayGet (results s) (nr_index p) = Some r \<longrightarrow>
      algorithmReducer d s (addNextcladeResult p) = Inr (dispatch d s (addNextcladeResult p)) \<and>
      arrayGet (results (dispatch d s (addNextcladeResult p))) (nr_index p) =
        Some (r\<lparr>result := nr_analysisResult p, query := nr_query p,
                queryPeptides := nr_queryPeptides p, warnings := nr_warnings p,
                status := (if nr_hasError p then SequenceStatus_failed else SequenceStatus_done),
                errors := (if nr_hasError p then [nr_error p] else [])\<rparr>) \<and>
      (r\<lparr>result := nr_analysisResult p, query := nr_query p,
         queryPeptides := nr_queryPeptides p, warnings := nr_warnings p,
         status := (if nr_hasError p then SequenceStatus_failed else SequenceStatus_done),
         errors := (if nr_hasError p then [nr_error p] else [])\<rparr> \<noteq> r \<longrightarrow>
       dispatch d s (addNextcladeResult p) \<noteq> s)) \<and>
   dispatch d (dispatch d s algorithmRunAsync_started) (addNextcladeResult p) =
     dispatch d s algorithmRunAsync_started"
proof -
  let ?r' = "r\<lparr>result := nr_analysisResult p, query := nr_query p,
                queryPeptides := nr_queryPeptides p, warnings := nr_warnings p,
                status := (if nr_hasError p then SequenceStatus_failed else SequenceStatus_done),
                errors := (if nr_hasError p then [nr_error p] else [])\<rparr>"
  let ?s' = "dispatch d s (addNextcladeResult p)"
  have absent: "arrayGet (results s) (nr_index p) = None \<longrightarrow>
      algorithmReducer d s (addNextcladeResult p) = Inl TypeError \<and> ?s' = s"
    by (simp add: dispatch_def addNextcladeResultHandler_def)
  have present: "arrayGet (results s) (nr_index p) = Some r \<longrightarrow>
      algorithmReducer d s (addNextcladeResult p) = Inr ?s' \<and>
      arrayGet (results ?s') (nr_index p) = Some ?r' \<and> (?r' \<noteq> r \<longrightarrow> ?s' \<noteq> s)"
  proof (intro impI conjI)
    assume here: "arrayGet (results s) (nr_index p) = Some r"
    show "algorithmReducer d s (addNextcladeResult p) = Inr ?s'"
      using here by (simp add: dispatch_def addNextcladeResultHandler_def)
    show stored: "arrayGet (results ?s') (nr_index p) = Some ?r'"
      using here
      by (simp add: dispatch_def addNextcladeResultHandler_def refilter_def arrayGet_def
          completeRecord_def Let_def split: if_splits)
    show "?s' \<noteq> s" if differs: "?r' \<noteq> r"
    proof
      assume "?s' = s"
      with stored have "arrayGet (results s) (nr_index p) = Some ?r'"
        by simp
      with here have "?r' = r"
        by simp
      with differs show False
        by simp
    qed
  qed
  have after_start: "dispatch d (dispatch d s algorithmRunAsync_started) (addNextcladeResult p) =
      dispatch d s algorithmRunAsync_started"
    by (simp add: dispatch_def addNextcladeResultHandler_def arrayGet_def)
  show ?thesis
    by (rule conjI [OF absent conjI [OF present after_start]])
qed

theorem completion_applied_by_index_alone_witness:
  "arrayGet (results secondRunState) 0 = Some (queuedRecord 0 ''t1'') \<and>
   algorithmReducer exampleDeps secondRunState
       (addNextcladeResult (successPayload 0 ''result of s1'')) =
     Inr (dispatch exampleDeps secondRunState
       (addNextcladeResult (successPayload 0 ''result of s1''))) \<and>
   arrayGet (results (dispatch exampleDeps secondRunState
       (addNextcladeResult (successPayload 0 ''result of s1'')))) 0 =
     Some \<lparr>status = SequenceStatus_done, seqId = 0, seqName = ''t1'',
           result = Some ''result of s1'', query = Some ''ACGT'', queryPeptides = Some ''MK'',
           warnings = \<lparr>global = [], inGenes = []\<rparr>, errors = []\<rparr> \<and>
   dispatch exampleDeps secondRunState (addNextcladeResult (successPayload 0 ''result of s1''))
     \<noteq> secondRunState \<and>
   arrayGet (results secondRunState) 5 = None \<and>
   algorithmReducer exampleDeps secondRunState
       (addNextcladeResult (successPayload 5 ''result of s6'')) = Inl TypeError \<and>
   dispatch exampleDeps secondRunState (addNextcladeResult (successPayload 5 ''result of s6''))
     = secondRunState"
proof -
  let ?p0 = "successPayload 0 ''result of s1''" and ?p5 = "successPayload 5 ''result of s6''"
  let ?r = "queuedRecord 0 ''t1''"
  let ?r' = "\<lparr>status = SequenceStatus_done, seqId = 0, seqName = ''t1'',
           result = Some ''result of s1'', query = Some ''ACGT'', queryPeptides = Some ''MK'',
           warnings = \<lparr>global = [], inGenes = []\<rparr>, errors = []\<rparr>"
  have a: "arrayGet (results secondRunState) (nr_index ?p0) = Some ?r"
    by (simp add: results_secondRunState arrayGet_def successPayload_def)
  have b: "arrayGet (results secondRunState) (nr_index ?p5) = None"
    by (simp add: results_secondRunState arrayGet_def successPayload_def)
  have upd: "?r\<lparr>result := nr_analysisResult ?p0, query := nr_query ?p0,
                queryPeptides := nr_queryPeptides ?p0, warnings := nr_warnings ?p0,
                status := (if nr_hasError ?p0 then SequenceStatus_failed else SequenceStatus_done),
                errors := (if nr_hasError ?p0 then [nr_error ?p0] else [])\<rparr> = ?r'"
    by (simp add: successPayload_def queuedRecord_def)
  have ne: "?r' \<noteq> ?r"
    by (simp add: queuedRecord_def)
  note at0 = completion_applied_by_index_alone
    [where s = secondRunState and p = ?p0 and d = exampleDeps and r = ?r, unfolded upd]
  note at5 = completion_applied_by_index_alone
    [where s = secondRunState and p = ?p5 and d = exampleDeps and r = ?r]
  from at0 a ne have
    "algorithmReducer exampleDeps secondRunState (addNextcladeResult ?p0) =
       Inr (dispatch exampleDeps secondRunState (addNextcladeResult ?p0))"
    and "arrayGet (results (dispatch exampleDeps secondRunState (addNextcladeResult ?p0)))
       (nr_index ?p0) = Some ?r'"
    and "dispatch exampleDeps secondRunState (addNextcladeResult ?p0) \<noteq> secondRunState"
    by blast+
  moreover from at5 b have
    "algorithmReducer exampleDeps secondRunState (addNextcladeResult ?p5) = Inl TypeError"
    and "dispatch exampleDeps secondRunState (addNextcladeResult ?p5) = secondRunState"
    by blast+
  moreover have "nr_index ?p0 = 0" and "nr_index ?p5 = 5"
    by (simp_all add: successPayload_def)
  ultimately show ?thesis
    using a b by simp
qed

text \<open>
  Claim C7 as stated fails: a first run parsed \<open>s1\<close>, \<open>s2\<close>, \<open>s3\<close>; a second run was
  started and parsed \<open>t1\<close>. The completion of the first run's sequence 0 arrives late
  and changes the current store (it marks \<open>t1\<close> as done, with the result of \<open>s1\<close>).
\<close>

theorem stale_completion_mutates_store:
  "dispatch exampleDeps secondRunState (addNextcladeResult (successPayload 0 ''result of s1''))
     \<noteq> secondRunState"
proof
  assume "dispatch exampleDeps secondRunState (addNextcladeResult (successPayload 0 ''result of s1''))
     = secondRunState"
  then have "results (dispatch exampleDeps secondRunState
      (addNextcladeResult (successPayload 0 ''result of s1''))) = results secondRunState"
    by simp
  then show False
    by (simp add: results_secondRunState dispatch_def addNextcladeResultHandler_def arrayGet_def
        refilter_def successPayload_def completeRecord_def queuedRecord_def)
qed

text \<open>
  Claim C9. When the handler of \<^verbatim>\<open>addNextcladeResult\<close> returns a state, the
  collection keeps its length, every position other than the payload's index reads as
  before, and the filter configuration, the input parameters, the run status, the
  dirty flag, the global error list and the output tree are unchanged: only the record
  at the index and the derived view can differ. (When the handler throws there is no
  new state at all.)
\<close>

theorem completeOne_frame:
  assumes "algorithmReducer d s (addNextcladeResult p) = Inr s'"
  shows "length (results s') = length (results s) \<and>
         (\<forall>j. j \<noteq> nr_index p \<longrightarrow> arrayGet (results s') j = arrayGet (results s) j) \<and>
         filters s' = filters s \<and> params s' = params s \<and>
         globalStatus s' = globalStatus s \<and> isDirty s' = isDirty s \<and>
         globalErrors s' = globalErrors s \<and> treeStr s' = treeStr s"
  using assms by (auto simp add: addNextcladeResult_returns_iff refilter_def arrayGet_def)

theorem completeOne_frame_witness:
  "algorithmReducer exampleDeps queuedState (addNextcladeResult (successPayload 1 ''A'')) =
     Inr (dispatch exampleDeps queuedState (addNextcladeResult (successPayload 1 ''A''))) \<and>
   length (results (dispatch exampleDeps queuedState (addNextcladeResult (successPayload 1 ''A'')))) = 3 \<and>
   arrayGet (results (dispatch exampleDeps queuedState (addNextcladeResult (successPayload 1 ''A'')))) 0
     = Some (queuedRecord 0 ''s1'') \<and>
   arrayGet (results (dispatch exampleDeps queuedState (addNextcladeResult (successPayload 1 ''A'')))) 2
     = Some (queuedRecord 2 ''s3'') \<and>
   filters (dispatch exampleDeps queuedState (addNextcladeResult (successPayload 1 ''A''))) = filters queuedState"
proof -
  have r: "algorithmReducer exampleDeps queuedState (addNextcladeResult (successPayload 1 ''A'')) =
     Inr (dispatch exampleDeps queuedState (addNextcladeResult (successPayload 1 ''A'')))"
    by (simp add: dispatch_def addNextcladeResultHandler_def results_queuedState arrayGet_def
        successPayload_def)
  let ?s' = "dispatch exampleDeps queuedState (addNextcladeResult (successPayload 1 ''A''))"
  note f = completeOne_frame [OF r]
  from f have len: "length (results ?s') = length (results queuedState)"
    and other: "\<forall>j. j \<noteq> nr_index (successPayload 1 ''A'') \<longrightarrow>
        arrayGet (results ?s') j = arrayGet (results queuedState) j"
    and fl: "filters ?s' = filters queuedState"
    by blast+
  from other have "arrayGet (results ?s') 0 = arrayGet (results queuedState) 0"
    and "arrayGet (results ?s') 2 = arrayGet (results queuedState) 2"
    by (simp_all add: successPayload_def)
  with r len fl show ?thesis
    by (simp add: results_queuedState arrayGet_def)
qed

text \<open>
  Claim C10. The handler of \<^verbatim>\<open>addNextcladeResult\<close> has no bounds or existence check:
  it throws a \<^verbatim>\<open>TypeError\<close> exactly when the collection has no record at the payload's
  index, and returns a state exactly when it has one. An index at or beyond the length
  of the collection therefore reaches the error; in a collection without holes every
  index below the number of records is served without error.
\<close>

theorem completeOne_total_iff_present:
  "((algorithmReducer d s (addNextcladeResult p) = Inl TypeError) =
      (arrayGet (results s) (nr_index p) = None)) \<and>
   ((\<exists>s'. algorithmReducer d s (addNextcladeResult p) = Inr s') =
      (arrayGet (results s) (nr_index p) \<noteq> None)) \<and>
   (length (results s) \<le> nr_index p \<longrightarrow>
      algorithmReducer d s (addNextcladeResult p) = Inl TypeError) \<and>
   (allPresent (results s) \<and> nr_index p < length (results s) \<longrightarrow>
      (\<exists>s'. algorithmReducer d s (addNextcladeResult p) = Inr s'))"
proof (intro conjI impI)
  show "(algorithmReducer d s (addNextcladeResult p) = Inl TypeError) =
      (arrayGet (results s) (nr_index p) = None)"
    by (simp add: addNextcladeResult_throws_iff)
  show "(\<exists>s'. algorithmReducer d s (addNextcladeResult p) = Inr s') =
      (arrayGet (results s) (nr_index p) \<noteq> None)"
    by (auto simp add: addNextcladeResult_returns_iff)
  show "algorithmReducer d s (addNextcladeResult p) = Inl TypeError"
    if "length (results s) \<le> nr_index p"
    using that by (simp add: addNextcladeResult_throws_iff arrayGet_def)
  show "\<exists>s'. algorithmReducer d s (addNextcladeResult p) = Inr s'"
    if "allPresent (results s) \<and> nr_index p < length (results s)"
    using that arrayGet_present [of "results s" "nr_index p"]
    by (auto simp add: addNextcladeResult_returns_iff)
qed

theorem completeOne_total_iff_present_witness:
  "allPresent (results queuedState) \<and> (1::nat) < length (results queuedState) \<and>
   (\<exists>s'. algorithmReducer exampleDeps queuedState (addNextcladeResult (successPayload 1 ''A'')) = Inr s') \<and>
   length (results queuedState) \<le> 7 \<and>
   algorithmReducer exampleDeps queuedState (addNextcladeResult (successPayload 7 ''A'')) = Inl TypeError"
proof -
  have a: "allPresent (results queuedState) \<and> nr_index (successPayload 1 ''A'') < length (results queuedState)"
    by (simp add: results_queuedState allPresent_def successPayload_def)
  have b: "length (results queuedState) \<le> nr_index (successPayload 7 ''A'')"
    by (simp add: results_queuedState successPayload_def)
  from a b completeOne_total_iff_present [of exampleDeps queuedState "successPayload 1 ''A''"]
    completeOne_total_iff_present [of exampleDeps queuedState "successPayload 7 ''A''"]
  show ?thesis
    by (simp add: successPayload_def results_queuedState arrayGet_def)
qed

section \<open>The outcome of the worker\<close>

lemma analyze_Inr_shape:
  assumes "analyze m w r = Inr out"
  shows "((out_result out = None) \<noteq> (out_error out = None)) \<and>
         (out_error out \<noteq> None \<longrightarrow> truthy (out_error out)) \<and>
         out_index out = fr_index r \<and> out_seqName out = fr_seqName r"
proof (cases m)
  case None
  with assms show ?thesis by (simp add: analyze_def)
next
  case (Some wasm)
  show ?thesis
  proof (cases "wasm \<lparr>qry_seq_name = fr_seqName r, qry_seq_str = fr_seq r\<rparr>")
    case (Inl e)
    with assms Some show ?thesis by (simp add: analyze_def)
  next
    case (Inr outp)
    show ?thesis
    proof (cases "output_result outp")
      case None
      with assms Some Inr show ?thesis
        by (cases "truthy (output_error outp)") (auto simp add: analyze_def truthy_def split: option.splits)
    next
      case (Some res)
      with assms \<open>m = Some wasm\<close> Inr show ?thesis
        by (auto simp add: analyze_def split: option.splits)
    qed
  qed
qed

lemma analyze_neither:
  assumes "m = Some wasm"
    and "wasm \<lparr>qry_seq_name = fr_seqName r, qry_seq_str = fr_seq r\<rparr> = Inr outp"
    and "output_result outp = None" and "\<not> truthy (output_error outp)"
  shows "analyze m w r = Inl ErrorBothResultsAndErrorAreNull"
  using assms by (simp add: analyze_def)

lemma analyze_error:
  assumes "m = Some wasm"
    and "wasm \<lparr>qry_seq_name = fr_seqName r, qry_seq_str = fr_seq r\<rparr> = Inr outp"
    and "output_result outp = None" and "truthy (output_error outp)"
  shows "analyze m w r = Inr \<lparr>out_index = fr_index r, out_seqName = fr_seqName r,
                              out_result = None, out_error = output_error outp\<rparr>"
  using assms by (simp add: analyze_def)

lemma analyze_result:
  assumes "m = Some wasm"
    and "wasm \<lparr>qry_seq_name = fr_seqName r, qry_seq_str = fr_seq r\<rparr> = Inr outp"
    and "output_result outp = Some res"
    and "parseQueryPeptides w (pojo_query_peptides res) = Some peps"
    and "parseAnalysisResult w (pojo_analysis_result res) = Some ar"
  shows "analyze m w r = Inr \<lparr>out_index = fr_index r, out_seqName = fr_seqName r,
                              out_result = Some \<lparr>ok_query = pojo_query res, ok_queryPeptides = peps,
                                                 ok_analysisResult = ar\<rparr>,
                              out_error = None\<rparr>"
  using assms by (simp add: analyze_def)

text \<open>
  Claim C8. Whenever \<^verbatim>\<open>analyze\<close> returns an outcome, exactly one of its result and
  its error is present (a present error is a non-empty message), and its index and
  name are those of the input record. It does return: with the module initialised, an
  engine output with a result whose two JSON texts parse gives the outcome with that
  result, and an output with no result and an error gives the outcome with that error.
  An output with neither a result nor an error makes \<^verbatim>\<open>analyze\<close> throw
  \<^verbatim>\<open>ErrorBothResultsAndErrorAreNull\<close>; no outcome is made up.
\<close>

theorem analyze_outcome:
  "(analyze m w r = Inr out \<longrightarrow>
      ((out_result out = None) \<noteq> (out_error out = None)) \<and>
      (out_error out \<noteq> None \<longrightarrow> truthy (out_error out)) \<and>
      out_index out = fr_index r \<and> out_seqName out = fr_seqName r) \<and>
   (m = Some wasm \<and>
    wasm \<lparr>qry_seq_name = fr_seqName r, qry_seq_str = fr_seq r\<rparr> = Inr outp \<and>
    output_result outp = None \<and> \<not> truthy (output_error outp) \<longrightarrow>
      analyze m w r = Inl ErrorBothResultsAndErrorAreNull) \<and>
   (m = Some wasm \<and>
    wasm \<lparr>qry_seq_name = fr_seqName r, qry_seq_str = fr_seq r\<rparr> = Inr outp \<and>
    output_result outp = None \<and> truthy (output_error outp) \<longrightarrow>
      analyze m w r = Inr \<lparr>out_index = fr_index r, out_seqName = fr_seqName r,
                              out_result = None, out_error = output_error outp\<rparr>) \<and>
   (m = Some wasm \<and>
    wasm \<lparr>qry_seq_name = fr_seqName r, qry_seq_str = fr_seq r\<rparr> = Inr outp \<and>
    output_result outp = Some res \<and>
    parseQueryPeptides w (pojo_query_peptides res) = Some peps \<and>
    parseAnalysisResult w (pojo_analysis_result res) = Some ar \<longrightarrow>
      analyze m w r = Inr \<lparr>out_index = fr_index r, out_seqName = fr_seqName r,
                              out_result = Some \<lparr>ok_query = pojo_query res, ok_queryPeptides = peps,
                                                 ok_analysisResult = ar\<rparr>,
                              out_error = None\<rparr>)"
proof -
  have a: "analyze m w r = Inr out \<longrightarrow>
      ((out_result out = None) \<noteq> (out_error out = None)) \<and>
      (out_error out \<noteq> None \<longrightarrow> truthy (out_error out)) \<and>
      out_index out = fr_index r \<and> out_seqName out = fr_seqName r"
    by (intro impI) (rule analyze_Inr_shape)
  have b: "m = Some wasm \<and>
    wasm \<lparr>qry_seq_name = fr_seqName r, qry_seq_str = fr_seq r\<rparr> = Inr outp \<and>
    output_result outp = None \<and> \<not> truthy (output_error outp) \<longrightarrow>
      analyze m w r = Inl ErrorBothResultsAndErrorAreNull"
    by (intro impI, elim conjE) (rule analyze_neither)
  have c: "m = Some wasm \<and>
    wasm \<lparr>qry_seq_name = fr_seqName r, qry_seq_str = fr_seq r\<rparr> = Inr outp \<and>
    output_result outp = None \<and> truthy (output_error outp) \<longrightarrow>
      analyze m w r = Inr \<lparr>out_index = fr_index r, out_seqName = fr_seqName r,
                              out_result = None, out_error = output_error outp\<rparr>"
    by (intro impI, elim conjE) (rule analyze_error)
  have d: "m = Some wasm \<and>
    wasm \<lparr>qry_seq_name = fr_seqName r, qry_seq_str = fr_seq r\<rparr> = Inr outp \<and>
    output_result outp = Some res \<and>
    parseQueryPeptides w (pojo_query_peptides res) = Some peps \<and>
    parseAnalysisResult w (pojo_analysis_result res) = Some ar \<longrightarrow>
      analyze m w r = Inr \<lparr>out_index = fr_index r, out_seqName = fr_seqName r,
                              out_result = Some \<lparr>ok_query = pojo_query res, ok_queryPeptides = peps,
                                                 ok_analysisResult = ar\<rparr>,
                              out_error = None\<rparr>"
    by (intro impI, elim conjE) (rule analyze_result)
  show ?thesis
    by (rule conjI [OF a conjI [OF b conjI [OF c d]]])
qed

theorem analyze_outcome_witness:
  "analyze (Some exampleWasm) exampleWorkerDeps \<lparr>fr_index = 4, fr_seqName = ''s5'', fr_seq = ''ACGT''\<rparr>
     = Inr \<lparr>out_index = 4, out_seqName = ''s5'',
            out_result = Some \<lparr>ok_query = ''ACGT'', ok_queryPeptides = [], ok_analysisResult = ''s5''\<rparr>,
            out_error = None\<rparr> \<and>
   analyze (Some exampleWasm) exampleWorkerDeps \<lparr>fr_index = 5, fr_seqName = ''s6'', fr_seq = []\<rparr>
     = Inr \<lparr>out_index = 5, out_seqName = ''s6'', out_result = None,
            out_error = Some ''empty sequence''\<rparr> \<and>
   analyze (Some silentWasm) exampleWorkerDeps \<lparr>fr_index = 6, fr_seqName = ''s7'', fr_seq = ''ACGT''\<rparr>
     = Inl ErrorBothResultsAndErrorAreNull"
proof -
  let ?pojo = "\<lparr>pojo_query = ''ACGT'', pojo_query_peptides = ''[]'', pojo_analysis_result = ''s5''\<rparr>"
  have 1: "analyze (Some exampleWasm) exampleWorkerDeps \<lparr>fr_index = 4, fr_seqName = ''s5'', fr_seq = ''ACGT''\<rparr>
     = Inr \<lparr>out_index = 4, out_seqName = ''s5'',
            out_result = Some \<lparr>ok_query = ''ACGT'', ok_queryPeptides = [], ok_analysisResult = ''s5''\<rparr>,
            out_error = None\<rparr>"
    using analyze_outcome [where m = "Some exampleWasm" and w = exampleWorkerDeps
      and r = "\<lparr>fr_index = 4, fr_seqName = ''s5'', fr_seq = ''ACGT''\<rparr>" and wasm = exampleWasm
      and out = "\<lparr>out_index = 0, out_seqName = [], out_result = None, out_error = None\<rparr>"
      and outp = "\<lparr>output_result = Some ?pojo, output_error = None\<rparr>"
      and res = ?pojo and peps = "[]" and ar = "''s5''"]
    by (simp add: exampleWasm_def exampleWorkerDeps_def)
  have 2: "analyze (Some exampleWasm) exampleWorkerDeps \<lparr>fr_index = 5, fr_seqName = ''s6'', fr_seq = []\<rparr>
     = Inr \<lparr>out_index = 5, out_seqName = ''s6'', out_result = None,
            out_error = Some ''empty sequence''\<rparr>"
    using analyze_outcome [where m = "Some exampleWasm" and w = exampleWorkerDeps
      and r = "\<lparr>fr_index = 5, fr_seqName = ''s6'', fr_seq = []\<rparr>" and wasm = exampleWasm
      and out = "\<lparr>out_index = 0, out_seqName = [], out_result = None, out_error = None\<rparr>"
      and outp = "\<lparr>output_result = None, output_error = Some ''empty sequence''\<rparr>"]
    by (simp add: exampleWasm_def truthy_def)
  have 3: "analyze (Some silentWasm) exampleWorkerDeps \<lparr>fr_index = 6, fr_seqName = ''s7'', fr_seq = ''ACGT''\<rparr>
     = Inl ErrorBothResultsAndErrorAreNull"
    using analyze_outcome [where m = "Some silentWasm" and w = exampleWorkerDeps
      and r = "\<lparr>fr_index = 6, fr_seqName = ''s7'', fr_seq = ''ACGT''\<rparr>" and wasm = silentWasm
      and out = "\<lparr>out_index = 0, out_seqName = [], out_result = None, out_error = None\<rparr>"
      and outp = "\<lparr>output_result = None, output_error = None\<rparr>"]
    by (simp add: silentWasm_def truthy_def)
  from 1 2 3 show ?thesis by simp
qed

section \<open>The derived view\<close>

lemma recomputesView_cases:
  assumes "recomputesView a"
  obtains (parsed) i n where "a = addParsedSequence i n"
    | (completed) p where "a = addNextcladeResult p"
    | (sorted) so where "a = resultsSortTrigger so"
    | (seqNames) v where "a = setSeqNamesFilter v"
    | (mutations) v where "a = setMutationsFilter v"
    | (aa) v where "a = setAAFilter v"
    | (clades) v where "a = setCladesFilter v"
    | (good) b where "a = setShowGood b"
    | (mediocre) b where "a = setShowMediocre b"
    | (bad) b where "a = setShowBad b"
    | (errs) b where "a = setShowErrors b"
  using assms by (cases a) simp_all

lemma recomputesView_refilter:
  assumes "recomputesView a" and "algorithmReducer d s a = Inr s'"
  shows "\<exists>t. s' = refilter d t \<and> resultsFiltered t = resultsFiltered s"
  using assms(1)
proof (cases rule: recomputesView_cases)
  case (parsed i n)
  with assms(2) show ?thesis
    by (auto simp add: addParsedSequenceHandler_def)
next
  case (completed p)
  with assms(2) show ?thesis
    by (auto simp add: addNextcladeResult_returns_iff)
next
  case (sorted so)
  with assms(2) show ?thesis
    by (auto simp add: resultsSortTriggerHandler_def Let_def)
next
  case (seqNames v)
  with assms(2) show ?thesis by auto
next
  case (mutations v)
  with assms(2) show ?thesis by auto
next
  case (aa v)
  with assms(2) show ?thesis by auto
next
  case (clades v)
  with assms(2) show ?thesis by auto
next
  case (good b)
  with assms(2) show ?thesis by auto
next
  case (mediocre b)
  with assms(2) show ?thesis by auto
next
  case (bad b)
  with assms(2) show ?thesis by auto
next
  case (errs b)
  with assms(2) show ?thesis by auto
qed


lemma refilter_previous_view: "(refilter d t)\<lparr>resultsFiltered := resultsFiltered t\<rparr> = t"
  by (simp add: refilter_def)

lemma runFilters_refilter:
  assumes "runFiltersPure d"
  shows "runFilters d (refilter d t) = runFilters d t"
proof -
  have "results (refilter d t) = results t \<and> filters (refilter d t) = filters t"
    by (simp add: refilter_def)
  with assms show ?thesis
    unfolding runFiltersPure_def by blast
qed

lemma runFiltersPure_exampleDeps: "runFiltersPure exampleDeps"
  by (simp add: runFiltersPure_def exampleDeps_def runFiltersSpec_def cong: option.case_cong)

text \<open>
  Claim C6. After each of \<^verbatim>\<open>addParsedSequence\<close>, \<^verbatim>\<open>addNextcladeResult\<close>,
  \<^verbatim>\<open>resultsSortTrigger\<close>, the four filter actions and the four visibility toggles,
  whenever the handler returns a state, the stored \<^verbatim>\<open>resultsFiltered\<close> is the value
  of \<^verbatim>\<open>runFilters\<close> on the updated state as the handler passes it (the new records,
  filters and sorting, the previous view still in place); and since the derived view
  is a function of the records and the filter and sort configuration alone, it is
  \<^verbatim>\<open>runFilters\<close> of the returned state itself: the view is never stale.
\<close>

theorem derived_view_recomputed:
  assumes "recomputesView a" and "algorithmReducer d s a = Inr s'"
  shows "resultsFiltered s' = runFilters d (s'\<lparr>resultsFiltered := resultsFiltered s\<rparr>) \<and>
         (runFiltersPure d \<longrightarrow> resultsFiltered s' = runFilters d s')"
proof -
  from assms obtain t where s': "s' = refilter d t" and v: "resultsFiltered t = resultsFiltered s"
    using recomputesView_refilter by blast
  have 1: "resultsFiltered (refilter d t) = runFilters d t"
    by (simp add: refilter_def)
  have 2: "(refilter d t)\<lparr>resultsFiltered := resultsFiltered s\<rparr> = t"
    unfolding v [symmetric] by (rule refilter_previous_view)
  have 3: "runFiltersPure d \<longrightarrow> runFilters d (refilter d t) = runFilters d t"
    by (intro impI) (rule runFilters_refilter)
  show ?thesis
    unfolding s' 2 1 using 3 by simp
qed

theorem derived_view_recomputed_witness:
  "recomputesView (setShowErrors False) \<and> runFiltersPure exampleDeps \<and>
   algorithmReducer exampleDeps queuedState (setShowErrors False) =
     Inr (dispatch exampleDeps queuedState (setShowErrors False)) \<and>
   resultsFiltered (dispatch exampleDeps queuedState (setShowErrors False)) =
     runFilters exampleDeps (dispatch exampleDeps queuedState (setShowErrors False))"
proof -
  have r: "algorithmReducer exampleDeps queuedState (setShowErrors False) =
     Inr (dispatch exampleDeps queuedState (setShowErrors False))"
    by (simp add: dispatch_def)
  have v: "recomputesView (setShowErrors False)" by simp
  from derived_view_recomputed [OF v r] runFiltersPure_exampleDeps r v
  show ?thesis by blast
qed

section \<open>The invariant of sequence records\<close>

lemma allRecords_subset: "set xs \<subseteq> set ys \<Longrightarrow> allRecords P ys \<Longrightarrow> allRecords P xs"
  by (auto simp add: allRecords_def list_all_iff)

lemma allRecords_Nil: "allRecords P []"
  by (simp add: allRecords_def)

lemma allRecords_arraySet: "allRecords P rs \<Longrightarrow> P v \<Longrightarrow> allRecords P (arraySet rs i v)"
  by (auto simp add: allRecords_def arraySet_def list_all_iff dest: subsetD [OF set_update_subset_insert])

lemma allRecords_update: "allRecords P rs \<Longrightarrow> P v \<Longrightarrow> allRecords P (rs[i := Some v])"
  by (auto simp add: allRecords_def list_all_iff dest: subsetD [OF set_update_subset_insert])

lemma allRecords_refilter:
  assumes "depsReturnEntries d" and "allRecords P (results t)"
  shows "allRecords P (results (refilter d t)) \<and> allRecords P (resultsFiltered (refilter d t))"
proof -
  from assms(1) have "set (runFilters d t) \<subseteq> set (results t)"
    by (simp add: depsReturnEntries_def)
  with assms(2) show ?thesis
    by (simp add: refilter_def allRecords_subset)
qed

lemma other_actions_keep_collection:
  assumes "\<not> recomputesView a" and "a \<noteq> algorithmRunAsync_started"
  shows "results (dispatch d s a) = results s \<and> resultsFiltered (dispatch d s a) = resultsFiltered s"
  using assms
  by (cases a)
     (simp_all add: dispatch_def removeAll_def removeFastaImpl_def removeTreeImpl_def
        removeRootSeqImpl_def removeQcSettingsImpl_def removeGeneMapImpl_def
        removePcrPrimersImpl_def setRaw_def setStrings_def setInputErrors_def setFinal_def
        Let_def split: option.splits)


lemma dispatch_preserves_allRecords:
  assumes deps: "depsReturnEntries d"
    and inv: "allRecords P (results s)" "allRecords P (resultsFiltered s)"
    and queued: "\<And>i n. P (queuedRecord i n)"
    and compl: "\<And>p r. a = addNextcladeResult p \<Longrightarrow> P (completeRecord p r)"
  shows "allRecords P (results (dispatch d s a)) \<and> allRecords P (resultsFiltered (dispatch d s a))"
proof (cases "recomputesView a")
  case False
  show ?thesis
  proof (cases "a = algorithmRunAsync_started")
    case True
    then show ?thesis by (simp add: dispatch_def allRecords_Nil)
  next
    case False
    with \<open>\<not> recomputesView a\<close> inv show ?thesis
      by (simp add: other_actions_keep_collection)
  qed
next
  case True
  then show ?thesis
  proof (cases rule: recomputesView_cases)
    case (parsed i n)
    have "allRecords P (results (s\<lparr>results := arraySet (results s) i (queuedRecord i n)\<rparr>))"
      using inv(1) queued by (simp add: allRecords_arraySet)
    from allRecords_refilter [OF deps this] parsed show ?thesis
      by (simp add: dispatch_def addParsedSequenceHandler_def)
  next
    case (completed p)
    show ?thesis
    proof (cases "arrayGet (results s) (nr_index p)")
      case None
      with completed inv show ?thesis
        by (simp add: dispatch_def addNextcladeResultHandler_def)
    next
      case (Some r)
      have "allRecords P (results (s\<lparr>results := (results s)[nr_index p := Some (completeRecord p r)]\<rparr>))"
        using inv(1) compl [OF completed] by (simp add: allRecords_update)
      from allRecords_refilter [OF deps this] completed Some show ?thesis
        by (simp add: dispatch_def addNextcladeResultHandler_def)
    qed
  next
    case (sorted so)
    from deps have "set (sortResults d (results s) so) \<subseteq> set (results s)"
      by (simp add: depsReturnEntries_def)
    with inv(1) have "allRecords P (results (s\<lparr>filters := (filters s)\<lparr>sorting := Some so\<rparr>,
        results := sortResults d (results s) so\<rparr>))"
      by (simp add: allRecords_subset)
    from allRecords_refilter [OF deps this] sorted show ?thesis
      by (simp add: dispatch_def resultsSortTriggerHandler_def Let_def)
  next
    case (seqNames v)
    have "allRecords P (results (s\<lparr>filters := (filters s)\<lparr>seqNamesFilter := v\<rparr>\<rparr>))"
      using inv(1) by simp
    from allRecords_refilter [OF deps this] seqNames show ?thesis by (simp add: dispatch_def)
  next
    case (mutations v)
    have "allRecords P (results (s\<lparr>filters := (filters s)\<lparr>mutationsFilter := v\<rparr>\<rparr>))"
      using inv(1) by simp
    from allRecords_refilter [OF deps this] mutations show ?thesis by (simp add: dispatch_def)
  next
    case (aa v)
    have "allRecords P (results (s\<lparr>filters := (filters s)\<lparr>aaFilter := v\<rparr>\<rparr>))"
      using inv(1) by simp
    from allRecords_refilter [OF deps this] aa show ?thesis by (simp add: dispatch_def)
  next
    case (clades v)
    have "allRecords P (results (s\<lparr>filters := (filters s)\<lparr>cladesFilter := v\<rparr>\<rparr>))"
      using inv(1) by simp
    from allRecords_refilter [OF deps this] clades show ?thesis by (simp add: dispatch_def)
  next
    case (good b)
    have "allRecords P (results (s\<lparr>filters := (filters s)\<lparr>showGood := b\<rparr>\<rparr>))"
      using inv(1) by simp
    from allRecords_refilter [OF deps this] good show ?thesis by (simp add: dispatch_def)
  next
    case (mediocre b)
    have "allRecords P (results (s\<lparr>filters := (filters s)\<lparr>showMediocre := b\<rparr>\<rparr>))"
      using inv(1) by simp
    from allRecords_refilter [OF deps this] mediocre show ?thesis by (simp add: dispatch_def)
  next
    case (bad b)
    have "allRecords P (results (s\<lparr>filters := (filters s)\<lparr>showBad := b\<rparr>\<rparr>))"
      using inv(1) by simp
    from allRecords_refilter [OF deps this] bad show ?thesis by (simp add: dispatch_def)
  next
    case (errs b)
    have "allRecords P (results (s\<lparr>filters := (filters s)\<lparr>showErrors := b\<rparr>\<rparr>))"
      using inv(1) by simp
    from allRecords_refilter [OF deps this] errs show ?thesis by (simp add: dispatch_def)
  qed
qed


lemma dispatchAll_preserves_allRecords:
  assumes deps: "depsReturnEntries d"
    and queued: "\<And>i n. P (queuedRecord i n)"
    and compl: "\<And>p r. addNextcladeResult p \<in> set as \<Longrightarrow> P (completeRecord p r)"
    and inv: "allRecords P (results s)" "allRecords P (resultsFiltered s)"
  shows "allRecords P (results (dispatchAll d s as)) \<and>
         allRecords P (resultsFiltered (dispatchAll d s as))"
  using compl inv
proof (induction as arbitrary: s)
  case Nil
  then show ?case by (simp add: dispatchAll_def)
next
  case (Cons a as)
  have step: "allRecords P (results (dispatch d s a)) \<and> allRecords P (resultsFiltered (dispatch d s a))"
    using deps Cons.prems(2,3) queued
  proof (rule dispatch_preserves_allRecords)
    fix p r
    assume "a = addNextcladeResult p"
    then show "P (completeRecord p r)"
      using Cons.prems(1) [of p r] by simp
  qed
  have "allRecords P (results (dispatchAll d (dispatch d s a) as)) \<and>
        allRecords P (resultsFiltered (dispatchAll d (dispatch d s a) as))"
  proof (rule Cons.IH)
    fix p r
    assume "addNextcladeResult p \<in> set as"
    then show "P (completeRecord p r)"
      using Cons.prems(1) [of p r] by simp
  qed (use step in simp_all)
  then show ?case by (simp add: dispatchAll_def)
qed

lemma errorsInvariant_queuedRecord: "errorsInvariant (queuedRecord i n)"
  by (simp add: errorsInvariant_def queuedRecord_def)

lemma errorsInvariant_completeRecord: "errorsInvariant (completeRecord p r)"
  by (simp add: errorsInvariant_def completeRecord_def Let_def)

lemma sequenceRecordInvariant_queuedRecord: "sequenceRecordInvariant (queuedRecord i n)"
  by (simp add: sequenceRecordInvariant_def queuedRecord_def)

lemma sequenceRecordInvariant_completeRecord:
  "payloadOk (addNextcladeResult p) \<Longrightarrow> sequenceRecordInvariant (completeRecord p r)"
  by (auto simp add: sequenceRecordInvariant_def completeRecord_def Let_def)

lemma Some_present_subset: "Some ` set (List.map_filter (\<lambda>r. r) rs) \<subseteq> set rs"
  by (auto simp add: List.map_filter_def)

lemma depsReturnEntries_exampleDeps: "depsReturnEntries exampleDeps"
proof -
  have "set (sortResultsSpec rs s) \<subseteq> set rs" for rs s
    using Some_present_subset [of rs]
    by (cases "category s"; cases "direction s")
       (auto simp add: sortResultsSpec_def Let_def)
  moreover have "set (runFiltersSpec s) \<subseteq> set (results s)" for s
    by (auto simp add: runFiltersSpec_def)
  ultimately show ?thesis
    by (simp add: depsReturnEntries_def exampleDeps_def)
qed

text \<open>
  Claim C2, as the code has it. Take a store that starts with an empty collection and
  an empty view, and helpers that return only entries they were given. After any
  sequence of actions, every record of the collection and of the derived view has a
  non-empty list of errors exactly when its status is failed. The handler of
  \<^verbatim>\<open>addNextcladeResult\<close> copies the payload's analysis result into the record
  whatever the payload's error flag says, so a result is present exactly when the
  status is done as long as every completion payload carries an analysis result
  exactly when it reports no error.
\<close>

theorem reachable_records_invariant:
  assumes "depsReturnEntries d" and "results s0 = []" and "resultsFiltered s0 = []"
  shows "allRecords errorsInvariant (results (dispatchAll d s0 as)) \<and>
         allRecords errorsInvariant (resultsFiltered (dispatchAll d s0 as)) \<and>
         (list_all payloadOk as \<longrightarrow>
            allRecords sequenceRecordInvariant (results (dispatchAll d s0 as)) \<and>
            allRecords sequenceRecordInvariant (resultsFiltered (dispatchAll d s0 as)))"
proof -
  have e: "allRecords errorsInvariant (results (dispatchAll d s0 as)) \<and>
         allRecords errorsInvariant (resultsFiltered (dispatchAll d s0 as))"
    using assms(1)
    by (rule dispatchAll_preserves_allRecords)
      (simp_all add: errorsInvariant_queuedRecord errorsInvariant_completeRecord assms allRecords_Nil)
  have f: "allRecords sequenceRecordInvariant (results (dispatchAll d s0 as)) \<and>
            allRecords sequenceRecordInvariant (resultsFiltered (dispatchAll d s0 as))"
    if ok: "list_all payloadOk as"
    using assms(1)
  proof (rule dispatchAll_preserves_allRecords)
    fix p r
    assume "addNextcladeResult p \<in> set as"
    with ok have "payloadOk (addNextcladeResult p)"
      unfolding list_all_iff by blast
    then show "sequenceRecordInvariant (completeRecord p r)"
      by (rule sequenceRecordInvariant_completeRecord)
  qed (simp_all add: sequenceRecordInvariant_queuedRecord assms allRecords_Nil)
  from e f show ?thesis by blast
qed

theorem reachable_records_invariant_witness:
  "depsReturnEntries exampleDeps \<and> results exampleState = [] \<and> resultsFiltered exampleState = [] \<and>
   list_all payloadOk
     [algorithmRunAsync_started, addParsedSequence 0 ''s1'', addParsedSequence 1 ''s2'',
      addNextcladeResult (successPayload 1 ''A''), addNextcladeResult (failurePayload 0 ''boom'')] \<and>
   allRecords sequenceRecordInvariant
     (results (dispatchAll exampleDeps exampleState
       [algorithmRunAsync_started, addParsedSequence 0 ''s1'', addParsedSequence 1 ''s2'',
        addNextcladeResult (successPayload 1 ''A''), addNextcladeResult (failurePayload 0 ''boom'')])) \<and>
   results (dispatchAll exampleDeps exampleState
       [algorithmRunAsync_started, addParsedSequence 0 ''s1'', addParsedSequence 1 ''s2'',
        addNextcladeResult (successPayload 1 ''A''), addNextcladeResult (failurePayload 0 ''boom'')]) =
     [Some \<lparr>status = SequenceStatus_failed, seqId = 0, seqName = ''s1'', result = None,
            query = None, queryPeptides = None, warnings = \<lparr>global = [], inGenes = []\<rparr>,
            errors = [''boom'']\<rparr>,
      Some \<lparr>status = SequenceStatus_done, seqId = 1, seqName = ''s2'', result = Some ''A'',
            query = Some ''ACGT'', queryPeptides = Some ''MK'',
            warnings = \<lparr>global = [], inGenes = []\<rparr>, errors = []\<rparr>]"
proof -
  let ?as = "[algorithmRunAsync_started, addParsedSequence 0 ''s1'', addParsedSequence 1 ''s2'',
      addNextcladeResult (successPayload 1 ''A''), addNextcladeResult (failurePayload 0 ''boom'')]"
  have a: "results exampleState = []" and b: "resultsFiltered exampleState = []"
    by (simp_all add: exampleState_def)
  have ok: "list_all payloadOk ?as"
    by (simp add: successPayload_def failurePayload_def)
  have v: "results (dispatchAll exampleDeps exampleState ?as) =
     [Some \<lparr>status = SequenceStatus_failed, seqId = 0, seqName = ''s1'', result = None,
            query = None, queryPeptides = None, warnings = \<lparr>global = [], inGenes = []\<rparr>,
            errors = [''boom'']\<rparr>,
      Some \<lparr>status = SequenceStatus_done, seqId = 1, seqName = ''s2'', result = Some ''A'',
            query = Some ''ACGT'', queryPeptides = Some ''MK'',
            warnings = \<lparr>global = [], inGenes = []\<rparr>, errors = []\<rparr>]"
    by (simp add: dispatchAll_def dispatch_def addParsedSequenceHandler_def refilter_def
      arraySet_def addNextcladeResultHandler_def arrayGet_def failurePayload_def successPayload_def
      completeRecord_def queuedRecord_def)
  from reachable_records_invariant [OF depsReturnEntries_exampleDeps a b, of ?as] ok
  have "allRecords sequenceRecordInvariant (results (dispatchAll exampleDeps exampleState ?as))"
    by blast
  with depsReturnEntries_exampleDeps a b ok v show ?thesis
    by blast
qed

text \<open>
  Claim C2 as stated fails: a run is started, \<open>s1\<close> is parsed, and its completion
  reports an error and carries an analysis result all the same. The record is then
  failed and holds a result.
\<close>

theorem failure_payload_with_result:
  "\<not> allRecords sequenceRecordInvariant
       (results (dispatchAll exampleDeps exampleState
          [algorithmRunAsync_started, addParsedSequence 0 ''s1'',
           addNextcladeResult ((failurePayload 0 ''alignment failed'')
             \<lparr>nr_analysisResult := Some ''partial result''\<rparr>)]))"
  by (simp add: dispatchAll_def dispatch_def addParsedSequenceHandler_def refilter_def
      arraySet_def addNextcladeResultHandler_def arrayGet_def failurePayload_def
      completeRecord_def queuedRecord_def allRecords_def sequenceRecordInvariant_def
      exampleState_def)

section \<open>Completions in any order\<close>

lemma dispatch_addNextcladeResult:
  "dispatch d s (addNextcladeResult p) =
     (case arrayGet (results s) (nr_index p) of
        None \<Rightarrow> s
      | Some r \<Rightarrow> refilter d (s\<lparr>results := (results s)[nr_index p := Some (completeRecord p r)]\<rparr>))"
  by (simp add: dispatch_def addNextcladeResultHandler_def split: option.splits)

lemma arrayGet_update_other: "i \<noteq> j \<Longrightarrow> arrayGet (rs[i := x]) j = arrayGet rs j"
  by (simp add: arrayGet_def)

lemma arrayGet_update_same: "arrayGet rs i = Some r \<Longrightarrow> arrayGet (rs[i := x]) i = x"
  by (simp add: arrayGet_def split: if_splits)

lemma arrayGet_dispatch_other:
  "nr_index p \<noteq> i \<Longrightarrow>
   arrayGet (results (dispatch d s (addNextcladeResult p))) i = arrayGet (results s) i"
  by (simp add: dispatch_addNextcladeResult results_refilter arrayGet_update_other
      split: option.splits)

lemma arrayGet_dispatch_same:
  "arrayGet (results (dispatch d s (addNextcladeResult p))) (nr_index p) =
     map_option (completeRecord p) (arrayGet (results s) (nr_index p))"
  by (simp add: dispatch_addNextcladeResult results_refilter arrayGet_update_same
      split: option.splits)

lemma refilter_absorb:
  assumes "runFiltersPure d"
  shows "refilter d ((refilter d t)\<lparr>results := X\<rparr>) = refilter d (t\<lparr>results := X\<rparr>)"
proof -
  have "results ((refilter d t)\<lparr>results := X\<rparr>) = results (t\<lparr>results := X\<rparr>) \<and>
        filters ((refilter d t)\<lparr>results := X\<rparr>) = filters (t\<lparr>results := X\<rparr>)"
    by (simp add: refilter_def)
  with assms have "runFilters d ((refilter d t)\<lparr>results := X\<rparr>) = runFilters d (t\<lparr>results := X\<rparr>)"
    unfolding runFiltersPure_def by blast
  then show ?thesis
    by (simp add: refilter_def)
qed

lemma completions_commute:
  assumes pure: "runFiltersPure d" and neq: "nr_index p \<noteq> nr_index q"
  shows "dispatch d (dispatch d s (addNextcladeResult p)) (addNextcladeResult q) =
         dispatch d (dispatch d s (addNextcladeResult q)) (addNextcladeResult p)"
proof (cases "arrayGet (results s) (nr_index p)")
  case None
  have "arrayGet (results (dispatch d s (addNextcladeResult q))) (nr_index p) = None"
    using neq None by (simp add: arrayGet_dispatch_other)
  then have "dispatch d (dispatch d s (addNextcladeResult q)) (addNextcladeResult p) =
      dispatch d s (addNextcladeResult q)"
    by (simp add: dispatch_addNextcladeResult [of d "dispatch d s (addNextcladeResult q)" p])
  moreover have "dispatch d s (addNextcladeResult p) = s"
    using None by (simp add: dispatch_addNextcladeResult)
  ultimately show ?thesis by simp
next
  case (Some r)
  note p_present = Some
  show ?thesis
  proof (cases "arrayGet (results s) (nr_index q)")
    case None
    have "arrayGet (results (dispatch d s (addNextcladeResult p))) (nr_index q) = None"
      using neq None by (simp add: arrayGet_dispatch_other)
    then have "dispatch d (dispatch d s (addNextcladeResult p)) (addNextcladeResult q) =
        dispatch d s (addNextcladeResult p)"
      by (simp add: dispatch_addNextcladeResult [of d "dispatch d s (addNextcladeResult p)" q])
    moreover have "dispatch d s (addNextcladeResult q) = s"
      using None by (simp add: dispatch_addNextcladeResult)
    ultimately show ?thesis by simp
  next
    case (Some r')
    let ?a = "Some (completeRecord p r)" and ?b = "Some (completeRecord q r')"
    let ?rs = "results s"
    have sp: "dispatch d s (addNextcladeResult p) = refilter d (s\<lparr>results := ?rs[nr_index p := ?a]\<rparr>)"
      using p_present by (simp add: dispatch_addNextcladeResult)
    have sq: "dispatch d s (addNextcladeResult q) = refilter d (s\<lparr>results := ?rs[nr_index q := ?b]\<rparr>)"
      using Some by (simp add: dispatch_addNextcladeResult)
    have gq: "arrayGet (?rs[nr_index p := ?a]) (nr_index q) = Some r'"
      using neq Some by (simp add: arrayGet_update_other)
    have gp: "arrayGet (?rs[nr_index q := ?b]) (nr_index p) = Some r"
      using neq p_present by (simp add: arrayGet_update_other)
    have l: "dispatch d (dispatch d s (addNextcladeResult p)) (addNextcladeResult q) =
        refilter d (s\<lparr>results := ?rs[nr_index p := ?a, nr_index q := ?b]\<rparr>)"
      unfolding sp
      by (simp add: dispatch_addNextcladeResult [of d "refilter d t" for t] results_refilter gq
          refilter_absorb [OF pure])
    have r: "dispatch d (dispatch d s (addNextcladeResult q)) (addNextcladeResult p) =
        refilter d (s\<lparr>results := ?rs[nr_index q := ?b, nr_index p := ?a]\<rparr>)"
      unfolding sq
      by (simp add: dispatch_addNextcladeResult [of d "refilter d t" for t] results_refilter gp
          refilter_absorb [OF pure])
    from neq have "?rs[nr_index p := ?a, nr_index q := ?b] = ?rs[nr_index q := ?b, nr_index p := ?a]"
      by (simp add: list_update_swap)
    with l r show ?thesis by simp
  qed
qed

lemma dispatchAll_completions_fold:
  "dispatchAll d s (map addNextcladeResult ps) =
     fold (\<lambda>p t. dispatch d t (addNextcladeResult p)) ps s"
  by (simp add: dispatchAll_def foldl_conv_fold fold_map comp_def)

lemma dispatchAll_permuted:
  assumes pure: "runFiltersPure d" and dist: "distinct (map nr_index ps)" and perm: "mset qs = mset ps"
  shows "dispatchAll d s (map addNextcladeResult ps) = dispatchAll d s (map addNextcladeResult qs)"
proof -
  let ?f = "\<lambda>p t. dispatch d t (addNextcladeResult p)"
  have inj: "inj_on nr_index (set ps)"
    using dist by (simp add: distinct_map)
  have comm: "?f x \<circ> ?f y = ?f y \<circ> ?f x" if "x \<in> set ps" "y \<in> set ps" for x y
  proof (cases "x = y")
    case True
    then show ?thesis by simp
  next
    case False
    with inj that have "nr_index y \<noteq> nr_index x"
      by (auto dest: inj_onD)
    then show ?thesis
      by (auto simp add: fun_eq_iff completions_commute [OF pure])
  qed
  have "fold ?f ps = fold ?f qs"
    using comm perm [symmetric] by (rule fold_multiset_equiv)
  then show ?thesis
    by (simp add: dispatchAll_completions_fold)
qed

lemma arrayGet_dispatchAll_untouched:
  "i \<notin> nr_index ` set ps \<Longrightarrow>
   arrayGet (results (dispatchAll d s (map addNextcladeResult ps))) i = arrayGet (results s) i"
proof (induction ps arbitrary: s)
  case Nil
  then show ?case by (simp add: dispatchAll_def)
next
  case (Cons a ps)
  from Cons.prems have "nr_index a \<noteq> i" and "i \<notin> nr_index ` set ps"
    by auto
  then show ?case
    using Cons.IH [of "dispatch d s (addNextcladeResult a)"]
    by (simp add: dispatchAll_def arrayGet_dispatch_other)
qed

lemma arrayGet_dispatchAll_completed:
  "distinct (map nr_index ps) \<Longrightarrow> p \<in> set ps \<Longrightarrow>
   arrayGet (results (dispatchAll d s (map addNextcladeResult ps))) (nr_index p) =
     map_option (completeRecord p) (arrayGet (results s) (nr_index p))"
proof (induction ps arbitrary: s)
  case Nil
  then show ?case by simp
next
  case (Cons a ps)
  let ?s1 = "dispatch d s (addNextcladeResult a)"
  have unfold: "dispatchAll d s (addNextcladeResult a # map addNextcladeResult ps) =
      dispatchAll d ?s1 (map addNextcladeResult ps)"
    by (simp add: dispatchAll_def)
  show ?case
  proof (cases "p = a")
    case True
    from Cons.prems(1) have "nr_index a \<notin> nr_index ` set ps"
      by simp
    then have "arrayGet (results (dispatchAll d ?s1 (map addNextcladeResult ps))) (nr_index a) =
        arrayGet (results ?s1) (nr_index a)"
      by (rule arrayGet_dispatchAll_untouched)
    with True show ?thesis
      by (simp add: unfold arrayGet_dispatch_same)
  next
    case False
    with Cons.prems have in_ps: "p \<in> set ps" and dist: "distinct (map nr_index ps)"
      and neq: "nr_index a \<noteq> nr_index p"
      by auto
    from Cons.IH [OF dist in_ps, of ?s1] neq show ?thesis
      by (simp add: unfold arrayGet_dispatch_other)
  qed
qed

text \<open>
  Claim C3. Take a collection of \<open>N\<close> records without holes and \<open>N\<close> completion
  payloads whose indices are 0, ..., \<open>N - 1\<close>, each once. Dispatching the
  \<^verbatim>\<open>addNextcladeResult\<close> actions in any two orders gives the same final record
  collection and the same final derived view (the derived view being a function of the
  records and the filter and sort configuration alone), and every payload has been
  applied to the record at its index.
\<close>

theorem completions_order_independent:
  assumes "runFiltersPure d" and "allPresent (results s)"
    and "mset (map nr_index ps) = mset [0..<length (results s)]" and "mset qs = mset ps"
  shows "results (dispatchAll d s (map addNextcladeResult ps)) =
           results (dispatchAll d s (map addNextcladeResult qs)) \<and>
         resultsFiltered (dispatchAll d s (map addNextcladeResult ps)) =
           resultsFiltered (dispatchAll d s (map addNextcladeResult qs)) \<and>
         (\<forall>p \<in> set ps. \<exists>r. arrayGet (results s) (nr_index p) = Some r \<and>
            arrayGet (results (dispatchAll d s (map addNextcladeResult ps))) (nr_index p) =
              Some (completeRecord p r))"
proof -
  from assms(3) have dist: "distinct (map nr_index ps)"
    by (metis distinct_upt mset_eq_imp_distinct_iff)
  have eq: "dispatchAll d s (map addNextcladeResult ps) = dispatchAll d s (map addNextcladeResult qs)"
    using assms(1) dist assms(4) by (rule dispatchAll_permuted)
  have applied: "\<exists>r. arrayGet (results s) (nr_index p) = Some r \<and>
            arrayGet (results (dispatchAll d s (map addNextcladeResult ps))) (nr_index p) =
              Some (completeRecord p r)" if "p \<in> set ps" for p
  proof -
    from that have "nr_index p \<in> set (map nr_index ps)"
      by simp
    also have "set (map nr_index ps) = set [0..<length (results s)]"
      using assms(3) by (rule mset_eq_setD)
    finally have "nr_index p < length (results s)"
      by simp
    with assms(2) obtain r where r: "arrayGet (results s) (nr_index p) = Some r"
      using arrayGet_present by blast
    with arrayGet_dispatchAll_completed [OF dist that, of d s] show ?thesis
      by simp
  qed
  from eq applied show ?thesis by simp
qed


theorem completions_order_independent_witness:
  "runFiltersPure exampleDeps \<and> allPresent (results queuedState) \<and>
   mset (map nr_index [successPayload 1 ''A'', failurePayload 0 ''boom'', successPayload 2 ''B'']) =
     mset [0..<length (results queuedState)] \<and>
   mset [failurePayload 0 ''boom'', successPayload 1 ''A'', successPayload 2 ''B''] =
     mset [successPayload 1 ''A'', failurePayload 0 ''boom'', successPayload 2 ''B''] \<and>
   results (dispatchAll exampleDeps queuedState (map addNextcladeResult
       [successPayload 1 ''A'', failurePayload 0 ''boom'', successPayload 2 ''B''])) =
     results (dispatchAll exampleDeps queuedState (map addNextcladeResult
       [failurePayload 0 ''boom'', successPayload 1 ''A'', successPayload 2 ''B''])) \<and>
   resultsFiltered (dispatchAll exampleDeps queuedState (map addNextcladeResult
       [successPayload 1 ''A'', failurePayload 0 ''boom'', successPayload 2 ''B''])) =
     resultsFiltered (dispatchAll exampleDeps queuedState (map addNextcladeResult
       [failurePayload 0 ''boom'', successPayload 1 ''A'', successPayload 2 ''B'']))"
proof -
  let ?ps = "[successPayload 1 ''A'', failurePayload 0 ''boom'', successPayload 2 ''B'']"
  let ?qs = "[failurePayload 0 ''boom'', successPayload 1 ''A'', successPayload 2 ''B'']"
  have a: "allPresent (results queuedState)"
    by (simp add: results_queuedState allPresent_def)
  have b: "mset (map nr_index ?ps) = mset [0..<length (results queuedState)]"
    by (simp add: results_queuedState successPayload_def failurePayload_def upt_rec)
  have c: "mset ?qs = mset ?ps"
    by simp
  from completions_order_independent [OF runFiltersPure_exampleDeps a b c]
    runFiltersPure_exampleDeps a b c
  show ?thesis by blast
qed

section \<open>Completions after sorting\<close>

text \<open>
  Claim C1 says that a completion with index \<open>i\<close> is stored in the record whose id is
  \<open>i\<close>, whatever sorting was applied before. The handler writes to position \<open>i\<close> of
  the array, and \<^verbatim>\<open>resultsSortTrigger\<close> reorders the array. Here a run is started,
  \<open>s1\<close> and \<open>s2\<close> are parsed (ids 0 and 1), the collection is sorted by id in
  descending order, and the completion of sequence 0 arrives: the record with id 1
  (\<open>s2\<close>) is marked done with the result of \<open>s1\<close>, and the record with id 0 stays
  queued.
\<close>

theorem completion_after_sort_hits_other_record:
  "results (dispatchAll exampleDeps exampleState
      [algorithmRunAsync_started, addParsedSequence 0 ''s1'', addParsedSequence 1 ''s2'',
       resultsSortTrigger \<lparr>category = SortCategory_id, direction = SortDirection_desc\<rparr>,
       addNextcladeResult (successPayload 0 ''result of s1'')]) =
     [Some \<lparr>status = SequenceStatus_done, seqId = 1, seqName = ''s2'',
            result = Some ''result of s1'', query = Some ''ACGT'', queryPeptides = Some ''MK'',
            warnings = \<lparr>global = [], inGenes = []\<rparr>, errors = []\<rparr>,
      Some \<lparr>status = SequenceStatus_queued, seqId = 0, seqName = ''s1'', result = None,
            query = None, queryPeptides = None, warnings = \<lparr>global = [], inGenes = []\<rparr>,
            errors = []\<rparr>]"
  by (simp add: dispatchAll_def dispatch_def addParsedSequenceHandler_def refilter_def
      arraySet_def addNextcladeResultHandler_def arrayGet_def successPayload_def
      completeRecord_def queuedRecord_def resultsSortTriggerHandler_def Let_def
      exampleDeps_def sortResultsSpec_def exampleState_def)

end
